theory Spec2Isabelle
  imports Complex_Main
begin

section \<open>Conventions of the embedding\<close>

text \<open>
  The repository is a set of Jupyter notebooks. Each code cell is embedded as a function
  on the variables it reads and writes. The external libraries (FEniCS, SRW, NumPy,
  Matplotlib) are not part of the repository: the calls into them that the properties
  are about are recorded as the \<open>event\<close>s of a trace, and where the result of a call
  matters the library function is a parameter of the cell. An event of a loop carries
  the loop index at which the call is made.

  Python floats are embedded as HOL reals: arithmetic is exact, rounding and overflow are
  not modelled. Python integers used as loop bounds and indices are \<open>nat\<close> or \<open>int\<close>.

  An exception is a value of type \<open>error\<close>. \<open>StopIteration\<close> is the exception by which
  a Python generator signals that it is exhausted. An exception raised inside a library
  call is \<open>LibraryError\<close> with its message: the FEniCS solver may raise (inside a
  generator Python turns even a \<open>StopIteration\<close> of the solver into another exception,
  so the solver never ends a generator normally), \<open>plt.savefig\<close> may raise (it does,
  with \<open>FileNotFoundError\<close>, when the directory of the file does not exist), and so
  may SRW's propagation. The other library calls are taken to return.
\<close>

datatype error =
    StopIteration
  | ZeroDivisionError
  | IndexError
  | UnboundLocalError
  | LibraryError string

text \<open>
  The beamlines of the SRW notebooks, by the library call that builds them:
  \<open>createDriftLensBL(Lc, df)\<close> and \<open>createDriftBL(Lc)\<close>.
\<close>

datatype beamline = DriftLensBL real real | DriftBL real

text \<open>
  The library calls of the notebooks. \<open>Solve\<close>, \<open>Plot\<close> and \<open>Assign\<close> are FEniCS's
  \<open>solve\<close>, \<open>plot\<close> and \<open>assign\<close> at a step of a time loop; \<open>PlotFinal\<close> is a
  \<open>plot\<close> after a loop; \<open>Propag i bl\<close> is \<open>srwl.PropagElecField\<close> in pass \<open>i\<close>;
  \<open>Rms j\<close> is \<open>rmsWavefrontIntensity\<close> on the \<open>j\<close>-th wavefront; \<open>SaveFig\<close> and
  \<open>SaveTxt\<close> are \<open>plt.savefig\<close> and \<open>np.savetxt\<close> with the file's name (and the
  format string); \<open>Print\<close> is \<open>print\<close> of a label and a number; the others are
  Matplotlib calls.
\<close>

datatype event =
    Solve nat
  | Plot nat
  | PlotFinal
  | Assign nat
  | Figure real real
  | Subplot int int int
  | SaveFig string
  | SaveTxt string string
  | Propag nat beamline
  | Rms nat
  | Print string real
  | Title string
  | Axvline
  | Grid
  | Show
  | Close

record tracing =
  trace :: "event list"

definition emit :: "event \<Rightarrow> 'a tracing_scheme \<Rightarrow> 'a tracing_scheme" where
  "emit e w = w\<lparr>trace := trace w @ [e]\<rparr>"

text \<open>Python's \<open>str\<close> on a non-negative integer: its decimal digits.\<close>

definition digit_char :: "nat \<Rightarrow> char" where
  "digit_char d = ''0123456789'' ! d"

function str :: "nat \<Rightarrow> string" where
  "str n = (if n < 10 then [digit_char n] else str (n div 10) @ [digit_char (n mod 10)])"
  by pat_completeness auto
termination
  by (relation "measure (\<lambda>n. n)") auto

declare str.simps [simp del]

text \<open>
  What a trace holds: the steps at which the solver was called, the passes and beamlines
  of the propagations, the files written and the lines printed, each in order.
\<close>

fun solver_calls :: "event list \<Rightarrow> nat list" where
  "solver_calls [] = []"
| "solver_calls (Solve n # tr) = n # solver_calls tr"
| "solver_calls (e # tr) = solver_calls tr"

fun propag_calls :: "event list \<Rightarrow> (nat \<times> beamline) list" where
  "propag_calls [] = []"
| "propag_calls (Propag i bl # tr) = (i, bl) # propag_calls tr"
| "propag_calls (e # tr) = propag_calls tr"

fun files_written :: "event list \<Rightarrow> string list" where
  "files_written [] = []"
| "files_written (SaveFig name # tr) = name # files_written tr"
| "files_written (SaveTxt name fmt # tr) = name # files_written tr"
| "files_written (e # tr) = files_written tr"

fun printed :: "event list \<Rightarrow> (string \<times> real) list" where
  "printed [] = []"
| "printed (Print label v # tr) = (label, v) # printed tr"
| "printed (e # tr) = printed tr"

fun plots :: "event list \<Rightarrow> nat list" where
  "plots [] = []"
| "plots (Plot n # tr) = n # plots tr"
| "plots (e # tr) = plots tr"

section \<open>Generators\<close>

text \<open>
  A Python generator is a resumable computation: \<open>next(g)\<close> runs it to its next
  \<open>yield\<close>. Here it is a state \<open>g\<close> with a function \<open>nxt\<close> that returns the yielded
  value or the exception raised, the generator's new state and the new world.

  \<open>drain\<close> is the loop \<open>for v in g\<close> without a body: it calls \<open>next\<close> until an
  exception comes out and collects the yielded values. It need not return, so it is a
  partial function: \<open>None\<close> is a run that never ends.
\<close>

partial_function (option) drain ::
  "('g \<Rightarrow> 'w \<Rightarrow> (error + 'v) \<times> 'g \<times> 'w) \<Rightarrow> 'v list \<Rightarrow> 'g \<Rightarrow> 'w
     \<Rightarrow> ('v list \<times> error \<times> 'g \<times> 'w) option" where
  "drain nxt acc g w =
     (case nxt g w of
        (Inl e, g', w') \<Rightarrow> Some (acc, e, g', w')
      | (Inr v, g', w') \<Rightarrow> drain nxt (acc @ [v]) g' w')"

definition resume ::
  "('g \<Rightarrow> 'w \<Rightarrow> (error + 'v) \<times> 'g \<times> 'w) \<Rightarrow> 'v list \<Rightarrow> (error + 'v) \<times> 'g \<times> 'w
     \<Rightarrow> ('v list \<times> error \<times> 'g \<times> 'w) option" where
  "resume nxt acc res =
     (case res of
        (Inl e, g', w') \<Rightarrow> Some (acc, e, g', w')
      | (Inr v, g', w') \<Rightarrow> drain nxt (acc @ [v]) g' w')"

definition yields :: "('g \<Rightarrow> 'w \<Rightarrow> (error + 'v) \<times> 'g \<times> 'w) \<Rightarrow> 'g \<Rightarrow> 'w \<Rightarrow> 'v list option" where
  "yields nxt g w = map_option fst (drain nxt [] g w)"

section \<open>The heat-diffusion notebook (xt02\_heat\_2D\_square)\<close>

text \<open>
  The notebook's globals: \<open>T = 2.0\<close>, \<open>num_steps = 50\<close>, \<open>dt = T / num_steps\<close>, and the
  previous solution \<open>u_n\<close>, a FEniCS function that \<open>u_n.assign(u)\<close> overwrites. The
  values of FEniCS functions are of an arbitrary type \<open>'u\<close>. \<open>solve(a == L, u, bc)\<close>
  reads \<open>u_n\<close> (through \<open>L\<close>) and stores the solution in \<open>u\<close>: the library's solver is a
  function from \<open>u_n\<close> to the new \<open>u\<close>, or to the message of the exception it raises.
  \<open>Function_V\<close> is the value of a fresh \<open>Function(V)\<close>. \<open>savefig\<close> is Matplotlib's
  \<open>plt.savefig\<close> on a file name: it writes the file, or raises.
\<close>

record 'u world = tracing +
  u_n :: 'u

record ('i, 'u) libraries =
  solve :: "'i \<Rightarrow> string + 'u"
  Function_V :: 'u
  savefig :: "string \<Rightarrow> string + unit"

text \<open>
  The libraries when their calls return: the solver returns \<open>f\<close> of its argument and
  \<open>plt.savefig\<close> writes its file.
\<close>

definition returning :: "('i \<Rightarrow> 'u) \<Rightarrow> 'u \<Rightarrow> ('i, 'u) libraries" where
  "returning f u0 = \<lparr>solve = (\<lambda>v. Inr (f v)), Function_V = u0, savefig = (\<lambda>name. Inr ())\<rparr>"

definition T_xt02 :: real where
  "T_xt02 = 2"

definition num_steps :: nat where
  "num_steps = 50"

definition dt_xt02 :: real where
  "dt_xt02 = T_xt02 / real num_steps"

text \<open>
  \<^verbatim>\<open>
  def evolve():
      nip = 10
      u = Function(V)
      t = 0
      for n in range(num_steps):
          t += dt
          solve(a == L, u, bc)
          if n % nip == 0:
              yield plot(u)
          u_n.assign(u)
  \<close>
  The generator is \<open>Created\<close> before its first \<open>next\<close>, \<open>Suspended n u t\<close> at the
  \<open>yield\<close> of step \<open>n\<close> with its locals \<open>u\<close> and \<open>t\<close>, and \<open>Finished\<close> once it has
  returned or raised. The value it yields is the step \<open>n\<close> of the plot.
  \<open>evolve_loop\<close> runs the loop from step \<open>n\<close> to the next \<open>yield\<close>.
\<close>

datatype 'u evolve_gen = Created | Suspended nat 'u real | Finished

definition nip_xt02 :: nat where
  "nip_xt02 = 10"

function evolve_loop ::
  "('u, 'u) libraries \<Rightarrow> nat \<Rightarrow> real \<Rightarrow> nat \<Rightarrow> 'u \<Rightarrow> real \<Rightarrow> 'u world
     \<Rightarrow> (error + nat) \<times> 'u evolve_gen \<times> 'u world" where
  "evolve_loop lib nsteps dt n u t w =
     (if n < nsteps then
        (let t1 = t + dt;
             w1 = emit (Solve n) w
         in case solve lib (u_n w1) of
              Inl msg \<Rightarrow> (Inl (LibraryError msg), Finished, w1)
            | Inr u1 \<Rightarrow>
                if n mod nip_xt02 = 0 then (Inr n, Suspended n u1 t1, emit (Plot n) w1)
                else evolve_loop lib nsteps dt (Suc n) u1 t1 (emit (Assign n) (w1\<lparr>u_n := u1\<rparr>)))
      else (Inl StopIteration, Finished, w))"
  by pat_completeness auto
termination
  by (relation "measure (\<lambda>(lib, nsteps, dt, n, u, t, w). nsteps - n)") auto

declare evolve_loop.simps [simp del]

definition evolve_next ::
  "('u, 'u) libraries \<Rightarrow> nat \<Rightarrow> real \<Rightarrow> 'u evolve_gen \<Rightarrow> 'u world
     \<Rightarrow> (error + nat) \<times> 'u evolve_gen \<times> 'u world" where
  "evolve_next lib nsteps dt g w =
     (case g of
        Created \<Rightarrow> evolve_loop lib nsteps dt 0 (Function_V lib) 0 w
      | Suspended n u t \<Rightarrow>
          evolve_loop lib nsteps dt (Suc n) u t (emit (Assign n) (w\<lparr>u_n := u\<rparr>))
      | Finished \<Rightarrow> (Inl StopIteration, Finished, w))"

text \<open>The notebook's \<open>evolve()\<close>: the generator over the notebook's globals.\<close>

definition evolve ::
  "('u, 'u) libraries \<Rightarrow> 'u evolve_gen \<Rightarrow> 'u world \<Rightarrow> (error + nat) \<times> 'u evolve_gen \<times> 'u world" where
  "evolve lib = evolve_next lib num_steps dt_xt02"

text \<open>
  \<^verbatim>\<open>
  def multiplot_from_generator(g, num_columns, figsize_for_one_row=None):
      if figsize_for_one_row is None:
          figsize_for_one_row = (15, 15/num_columns)
      try:
          while True:
              plt.figure(figsize=figsize_for_one_row)
              for col in range(num_columns):
                  ax = plt.subplot(1, num_columns, col+1)
                  next(g)
      except StopIteration:
          pass
  \<close>
  \<open>multiplot_row\<close> is the inner \<open>for\<close> loop with \<open>k\<close> columns left, \<open>multiplot_while\<close>
  the \<open>while True\<close> loop, which only an exception ends, and
  \<open>multiplot_from_generator\<close> the function with its handler.
\<close>

fun multiplot_row ::
  "('g \<Rightarrow> 'a tracing_scheme \<Rightarrow> (error + 'v) \<times> 'g \<times> 'a tracing_scheme) \<Rightarrow> int \<Rightarrow> nat \<Rightarrow> 'g
     \<Rightarrow> 'a tracing_scheme \<Rightarrow> (error + unit) \<times> 'g \<times> 'a tracing_scheme" where
  "multiplot_row nxt num_columns 0 g w = (Inr (), g, w)"
| "multiplot_row nxt num_columns (Suc k) g w =
     (let col = num_columns - int (Suc k);
          w1 = emit (Subplot 1 num_columns (col + 1)) w
      in case nxt g w1 of
           (Inl e, g', w') \<Rightarrow> (Inl e, g', w')
         | (Inr v, g', w') \<Rightarrow> multiplot_row nxt num_columns k g' w')"

partial_function (option) multiplot_while ::
  "('g \<Rightarrow> 'a tracing_scheme \<Rightarrow> (error + 'v) \<times> 'g \<times> 'a tracing_scheme) \<Rightarrow> int \<Rightarrow> real \<times> real
     \<Rightarrow> 'g \<Rightarrow> 'a tracing_scheme \<Rightarrow> (error \<times> 'g \<times> 'a tracing_scheme) option" where
  "multiplot_while nxt num_columns figsize g w =
     (case multiplot_row nxt num_columns (nat num_columns) g
             (emit (Figure (fst figsize) (snd figsize)) w) of
        (Inl e, g', w') \<Rightarrow> Some (e, g', w')
      | (Inr _, g', w') \<Rightarrow> multiplot_while nxt num_columns figsize g' w')"

definition handle_StopIteration ::
  "(error \<times> 'g \<times> 'w) option \<Rightarrow> ((error + unit) \<times> 'g \<times> 'w) option" where
  "handle_StopIteration r =
     (case r of
        None \<Rightarrow> None
      | Some (e, g', w') \<Rightarrow> Some (if e = StopIteration then Inr () else Inl e, g', w'))"

definition multiplot_from_generator ::
  "('g \<Rightarrow> 'a tracing_scheme \<Rightarrow> (error + 'v) \<times> 'g \<times> 'a tracing_scheme) \<Rightarrow> 'g \<Rightarrow> int
     \<Rightarrow> (real \<times> real) option \<Rightarrow> 'a tracing_scheme
     \<Rightarrow> ((error + unit) \<times> 'g \<times> 'a tracing_scheme) option" where
  "multiplot_from_generator nxt g num_columns figsize_for_one_row w =
     (case figsize_for_one_row of
        None \<Rightarrow>
          if num_columns = 0 then Some (Inl ZeroDivisionError, g, w)
          else handle_StopIteration
                 (multiplot_while nxt num_columns (15, 15 / real_of_int num_columns) g w)
      | Some figsize \<Rightarrow> handle_StopIteration (multiplot_while nxt num_columns figsize g w))"

text \<open>The cell \<^verbatim>\<open>multiplot_from_generator(evolve(), 5)\<close>.\<close>

definition cell_multiplot ::
  "('u, 'u) libraries \<Rightarrow> 'u world \<Rightarrow> ((error + unit) \<times> 'u evolve_gen \<times> 'u world) option" where
  "cell_multiplot lib w = multiplot_from_generator (evolve lib) Created 5 None w"

text \<open>
  The cell that saves every step's plot:
  \<^verbatim>\<open>
  u = Function(V)
  t = 0
  for n in range(num_steps):
      solve(a == L, u, bc)
      plot(u)
      plt.savefig('heat_2D_sqr/' + 'u_plot_' + str(n) + '.png')
      t += dt
      u_n.assign(u)
  \<close>
  \<open>savefig_loop\<close> is the loop from step \<open>n\<close>; it returns the exception raised, if any,
  the locals \<open>u\<close> and \<open>t\<close>, and the world. No cell of the notebook creates the
  directory \<open>heat_2D_sqr\<close>: where it does not exist, \<open>plt.savefig\<close> raises at step 0.
  The event \<open>SaveFig\<close> is a file written, so a call that raises leaves none.
\<close>

function savefig_loop ::
  "('u, 'u) libraries \<Rightarrow> nat \<Rightarrow> real \<Rightarrow> nat \<Rightarrow> 'u \<Rightarrow> real \<Rightarrow> 'u world
     \<Rightarrow> (error + unit) \<times> ('u \<times> real) \<times> 'u world" where
  "savefig_loop lib nsteps dt n u t w =
     (if n < nsteps then
        (let w1 = emit (Solve n) w
         in case solve lib (u_n w1) of
              Inl msg \<Rightarrow> (Inl (LibraryError msg), (u, t), w1)
            | Inr u1 \<Rightarrow>
                (let w2 = emit (Plot n) w1;
                     name = ''heat_2D_sqr/'' @ ''u_plot_'' @ str n @ ''.png''
                 in case savefig lib name of
                      Inl msg \<Rightarrow> (Inl (LibraryError msg), (u1, t), w2)
                    | Inr _ \<Rightarrow>
                        (let w3 = emit (SaveFig name) w2;
                             t1 = t + dt
                         in savefig_loop lib nsteps dt (Suc n) u1 t1
                              (emit (Assign n) (w3\<lparr>u_n := u1\<rparr>)))))
      else (Inr (), (u, t), w))"
  by pat_completeness auto
termination
  by (relation "measure (\<lambda>(lib, nsteps, dt, n, u, t, w). nsteps - n)") auto

declare savefig_loop.simps [simp del]

definition cell_savefig ::
  "('u, 'u) libraries \<Rightarrow> 'u world \<Rightarrow> (error + unit) \<times> ('u \<times> real) \<times> 'u world" where
  "cell_savefig lib w = savefig_loop lib num_steps dt_xt02 0 (Function_V lib) 0 w"

section \<open>The amplifier notebook (fn\_simp\_06d)\<close>

text \<open>
  The globals the loops read: \<open>ds = Ld / mesh_d\<close> with \<open>Ld = 1.00\<close> and
  \<open>mesh_d = 226\<close>, \<open>T = 183 * ds\<close>, \<open>n_steps = 800\<close>, \<open>dt = T / n_steps\<close>,
  \<open>nip = 100\<close>, and the previous solutions \<open>nph_j\<close> and \<open>Dcr_j\<close>. The variational
  problem \<open>a == L\<close> holds \<open>nph_j\<close> and \<open>Dcr_j\<close>: the solver is a function of both.
\<close>

record 'u world_fn06d = tracing +
  nph_j :: 'u
  Dcr_j :: 'u

definition ds :: real where
  "ds = 1 / 226"

definition T_fn06d :: real where
  "T_fn06d = 183 * ds"

definition n_steps :: nat where
  "n_steps = 800"

definition dt_fn06d :: real where
  "dt_fn06d = T_fn06d / real n_steps"

definition nip_fn06d :: nat where
  "nip_fn06d = 100"

text \<open>
  The cell that executes the simulation:
  \<^verbatim>\<open>
  nph = Function(V)
  Dcr = Function(V)
  Dcr.assign(Dcr_j)
  t = 0
  plt.figure(figsize=(13,8))
  plt.title("population inversion density")
  for ii in range(n_steps):
      t += dt
      solve(a == L, nph, bc)
      if ii % nip == 0:
          plot(Dcr / (c_D0 / p_n0))
      nph_j.assign(nph)
      Dcr_j.assign(Dcr)
  plt.axvline(p_x0,          c='g', lw=1.2)
  plt.axvline(p_x0 + cm * T, c='r', lw=1.2)
  plot(Dcr / (c_D0 / p_n0), ls=':',  c='g', lw=1.2)
  plt.grid(True)
  plt.show()
  plt.close()
  \<close>
\<close>

function time_steps ::
  "('u \<times> 'u, 'u) libraries \<Rightarrow> nat \<Rightarrow> real \<Rightarrow> nat \<Rightarrow> 'u \<Rightarrow> 'u \<Rightarrow> real \<Rightarrow> 'u world_fn06d
     \<Rightarrow> (error + unit) \<times> ('u \<times> 'u \<times> real) \<times> 'u world_fn06d" where
  "time_steps lib nsteps dt ii nph Dcr t w =
     (if ii < nsteps then
        (let t1 = t + dt;
             w1 = emit (Solve ii) w
         in case solve lib (nph_j w1, Dcr_j w1) of
              Inl msg \<Rightarrow> (Inl (LibraryError msg), (nph, Dcr, t1), w1)
            | Inr nph1 \<Rightarrow>
                (let w2 = (if ii mod nip_fn06d = 0 then emit (Plot ii) w1 else w1);
                     w3 = emit (Assign ii) (w2\<lparr>nph_j := nph1\<rparr>);
                     w4 = emit (Assign ii) (w3\<lparr>Dcr_j := Dcr\<rparr>)
                 in time_steps lib nsteps dt (Suc ii) nph1 Dcr t1 w4))
      else (Inr (), (nph, Dcr, t), w))"
  by pat_completeness auto
termination
  by (relation "measure (\<lambda>(lib, nsteps, dt, ii, nph, Dcr, t, w). nsteps - ii)") auto

declare time_steps.simps [simp del]

definition cell_execute ::
  "('u \<times> 'u, 'u) libraries \<Rightarrow> 'u world_fn06d
     \<Rightarrow> (error + unit) \<times> ('u \<times> 'u \<times> real) \<times> 'u world_fn06d" where
  "cell_execute lib w =
     (let nph = Function_V lib;
          Dcr = Dcr_j w;
          w1 = emit (Title ''population inversion density'') (emit (Figure 13 8) w)
      in case time_steps lib n_steps dt_fn06d 0 nph Dcr 0 w1 of
           (Inl e, vars, w2) \<Rightarrow> (Inl e, vars, w2)
         | (Inr _, vars, w2) \<Rightarrow>
             (Inr (), vars,
              emit Close (emit Show (emit Grid (emit PlotFinal (emit Axvline (emit Axvline w2)))))))"

text \<open>
  The notebook's own generator:
  \<^verbatim>\<open>
  def evolve():
      nph = Function(V)
      t = 0
      for ii in range(n_steps):
          t += dt
          solve(a == L, nph, bc)
          if ii % nip == 0:
              yield nph
          nph_j.assign(nph)
      if ii % nip == 0:
          yield nph
  \<close>
  After the loop \<open>ii\<close> is the last step, \<open>n_steps - 1\<close>; with no step at all the name is
  unbound. The generator is \<open>Fresh\<close> before its first \<open>next\<close>, \<open>AtYield ii nph t\<close> at the
  \<open>yield\<close> of step \<open>ii\<close>, \<open>AtFinalYield\<close> at the \<open>yield\<close> after the loop and
  \<open>Exhausted\<close> once it has returned or raised. The value it yields is the step.
\<close>

datatype 'u gen_fn06d = Fresh | AtYield nat 'u real | AtFinalYield | Exhausted

function evolve_loop_fn06d ::
  "('u \<times> 'u, 'u) libraries \<Rightarrow> nat \<Rightarrow> real \<Rightarrow> nat \<Rightarrow> 'u \<Rightarrow> real \<Rightarrow> 'u world_fn06d
     \<Rightarrow> (error + nat) \<times> 'u gen_fn06d \<times> 'u world_fn06d" where
  "evolve_loop_fn06d lib nsteps dt ii nph t w =
     (if ii < nsteps then
        (let t1 = t + dt;
             w1 = emit (Solve ii) w
         in case solve lib (nph_j w1, Dcr_j w1) of
              Inl msg \<Rightarrow> (Inl (LibraryError msg), Exhausted, w1)
            | Inr nph1 \<Rightarrow>
                if ii mod nip_fn06d = 0 then (Inr ii, AtYield ii nph1 t1, w1)
                else evolve_loop_fn06d lib nsteps dt (Suc ii) nph1 t1
                       (emit (Assign ii) (w1\<lparr>nph_j := nph1\<rparr>)))
      else if nsteps = 0 then (Inl UnboundLocalError, Exhausted, w)
      else if (nsteps - 1) mod nip_fn06d = 0 then (Inr (nsteps - 1), AtFinalYield, w)
      else (Inl StopIteration, Exhausted, w))"
  by pat_completeness auto
termination
  by (relation "measure (\<lambda>(lib, nsteps, dt, ii, nph, t, w). nsteps - ii)") auto

declare evolve_loop_fn06d.simps [simp del]

definition evolve_next_fn06d ::
  "('u \<times> 'u, 'u) libraries \<Rightarrow> nat \<Rightarrow> real \<Rightarrow> 'u gen_fn06d \<Rightarrow> 'u world_fn06d
     \<Rightarrow> (error + nat) \<times> 'u gen_fn06d \<times> 'u world_fn06d" where
  "evolve_next_fn06d lib nsteps dt g w =
     (case g of
        Fresh \<Rightarrow> evolve_loop_fn06d lib nsteps dt 0 (Function_V lib) 0 w
      | AtYield ii nph t \<Rightarrow>
          evolve_loop_fn06d lib nsteps dt (Suc ii) nph t (emit (Assign ii) (w\<lparr>nph_j := nph\<rparr>))
      | AtFinalYield \<Rightarrow> (Inl StopIteration, Exhausted, w)
      | Exhausted \<Rightarrow> (Inl StopIteration, Exhausted, w))"

definition evolve_fn06d ::
  "('u \<times> 'u, 'u) libraries \<Rightarrow> 'u gen_fn06d \<Rightarrow> 'u world_fn06d
     \<Rightarrow> (error + nat) \<times> 'u gen_fn06d \<times> 'u world_fn06d" where
  "evolve_fn06d lib = evolve_next_fn06d lib n_steps dt_fn06d"

text \<open>
  The cell that plots what \<open>evolve\<close> yields:
  \<^verbatim>\<open>
  n_rows = 3
  n_cols = 5
  fig_wd = 15
  plt.figure(figsize = (fig_wd, fig_wd * n_rows // n_cols))
  plt.subplots_adjust(wspace=0.3, hspace=0.3)
  idx = 0
  for u in evolve():
      idx += 1
      plt.subplot(n_rows, n_cols, idx)
      plot(u)
  \<close>
  A \<open>for\<close> statement over a generator calls \<open>next\<close> until \<open>StopIteration\<close>, which ends
  the loop; any other exception leaves it. \<open>for_u_in\<close> is that loop; it returns
  \<open>idx\<close>.
\<close>

partial_function (option) for_u_in ::
  "('g \<Rightarrow> 'a tracing_scheme \<Rightarrow> (error + nat) \<times> 'g \<times> 'a tracing_scheme) \<Rightarrow> int \<Rightarrow> int \<Rightarrow> int
     \<Rightarrow> 'g \<Rightarrow> 'a tracing_scheme \<Rightarrow> ((error + int) \<times> 'g \<times> 'a tracing_scheme) option" where
  "for_u_in nxt n_rows n_cols idx g w =
     (case nxt g w of
        (Inl e, g', w') \<Rightarrow> Some (if e = StopIteration then Inr idx else Inl e, g', w')
      | (Inr u, g', w') \<Rightarrow>
          for_u_in nxt n_rows n_cols (idx + 1) g'
            (emit (Plot u) (emit (Subplot n_rows n_cols (idx + 1)) w')))"

definition cell_plot_evolve ::
  "('u \<times> 'u, 'u) libraries \<Rightarrow> 'u world_fn06d
     \<Rightarrow> ((error + int) \<times> 'u gen_fn06d \<times> 'u world_fn06d) option" where
  "cell_plot_evolve lib w =
     (let n_rows = 3; n_cols = 5; fig_wd = 15;
          w1 = emit (Figure (real_of_int fig_wd) (real_of_int (fig_wd * n_rows div n_cols))) w
      in for_u_in (evolve_fn06d lib) n_rows n_cols 0 Fresh w1)"

section \<open>The cavity-propagation notebook\<close>

text \<open>
  Wavefronts are mutable SRW objects: \<open>srwl.PropagElecField(wfr, bl)\<close> overwrites the
  wavefront it is given, and the list \<open>cavitywfrList\<close> holds references. So the objects
  live in a \<open>heap\<close>, a list indexed by address, and \<open>cavitywfrList\<close> is a list of
  addresses. \<open>deepcopy\<close> allocates a new object with the same value. What the library's
  propagation does to a wavefront's value is the parameter \<open>PropagElecField\<close>. The
  loop is given twice: first with a propagation that returns, then with one that may
  raise.
\<close>

record 'wf cavity = tracing +
  heap :: "'wf list"
  cavitywfrList :: "nat list"

definition Lc :: real where
  "Lc = 10"

definition dfR :: real where
  "dfR = 0"

definition dfL :: real where
  "dfL = 0"

definition propagateRight :: beamline where
  "propagateRight = DriftLensBL Lc dfR"

definition propagateLeft :: beamline where
  "propagateLeft = DriftLensBL Lc dfL"

definition propagateDrift :: beamline where
  "propagateDrift = DriftBL Lc"

definition npass :: nat where
  "npass = 4"

definition deepcopy :: "nat \<Rightarrow> 'wf cavity \<Rightarrow> nat \<times> 'wf cavity" where
  "deepcopy a s = (length (heap s), s\<lparr>heap := heap s @ [heap s ! a]\<rparr>)"

definition propag ::
  "(beamline \<Rightarrow> 'wf \<Rightarrow> 'wf) \<Rightarrow> nat \<Rightarrow> nat \<Rightarrow> beamline \<Rightarrow> 'wf cavity \<Rightarrow> 'wf cavity" where
  "propag PropagElecField i a bl s =
     emit (Propag i bl) (s\<lparr>heap := (heap s)[a := PropagElecField bl (heap s ! a)]\<rparr>)"

definition append_wfr :: "nat \<Rightarrow> 'wf cavity \<Rightarrow> 'wf cavity" where
  "append_wfr a s = s\<lparr>cavitywfrList := cavitywfrList s @ [a]\<rparr>"

text \<open>
  One pass of the loop:
  \<^verbatim>\<open>
  wfr = deepcopy(cavitywfrList[-1])
  srwl.PropagElecField(wfr, propagateRight)
  cavitywfrList.append(wfr)
  wfr2 = deepcopy(wfr)
  srwl.PropagElecField(wfr2,propagateDrift)
  cavitywfrList.append(wfr2)
  wfr3 = deepcopy(wfr2)
  srwl.PropagElecField(wfr3, propagateLeft)
  cavitywfrList.append(wfr3)
  wfr4 = deepcopy(wfr3)
  srwl.PropagElecField(wfr4, propagateDrift)
  cavitywfrList.append(wfr4)
  \<close>
  \<open>cavitywfrList[-1]\<close> raises \<open>IndexError\<close> on an empty list.
\<close>

definition cavity_pass ::
  "(beamline \<Rightarrow> 'wf \<Rightarrow> 'wf) \<Rightarrow> nat \<Rightarrow> 'wf cavity \<Rightarrow> error + 'wf cavity" where
  "cavity_pass PropagElecField i s =
     (if cavitywfrList s = [] then Inl IndexError
      else
        (let (wfr, s1) = deepcopy (last (cavitywfrList s)) s;
             s2 = append_wfr wfr (propag PropagElecField i wfr propagateRight s1);
             (wfr2, s3) = deepcopy wfr s2;
             s4 = append_wfr wfr2 (propag PropagElecField i wfr2 propagateDrift s3);
             (wfr3, s5) = deepcopy wfr2 s4;
             s6 = append_wfr wfr3 (propag PropagElecField i wfr3 propagateLeft s5);
             (wfr4, s7) = deepcopy wfr3 s6;
             s8 = append_wfr wfr4 (propag PropagElecField i wfr4 propagateDrift s7)
         in Inr s8))"

text \<open>\<^verbatim>\<open>for i in range(npass):\<close> from pass \<open>i\<close> on.\<close>

function cavity_loop ::
  "(beamline \<Rightarrow> 'wf \<Rightarrow> 'wf) \<Rightarrow> nat \<Rightarrow> nat \<Rightarrow> 'wf cavity \<Rightarrow> error + 'wf cavity" where
  "cavity_loop PropagElecField n i s =
     (if i < n then
        (case cavity_pass PropagElecField i s of
           Inl e \<Rightarrow> Inl e
         | Inr s' \<Rightarrow> cavity_loop PropagElecField n (Suc i) s')
      else Inr s)"
  by pat_completeness auto
termination
  by (relation "measure (\<lambda>(P, n, i, s). n - i)") auto

declare cavity_loop.simps [simp del]

text \<open>
  The cell: \<^verbatim>\<open>cavitywfrList = [wfrCenter0]\<close>, \<^verbatim>\<open>npass = 4\<close> and the loop. The initial
  wavefront \<open>wfrCenter0\<close> is the object at address 0.
\<close>

definition cavity_init :: "'wf \<Rightarrow> 'wf cavity" where
  "cavity_init wfrCenter0 = \<lparr>trace = [], heap = [wfrCenter0], cavitywfrList = [0]\<rparr>"

definition cell_cavity :: "(beamline \<Rightarrow> 'wf \<Rightarrow> 'wf) \<Rightarrow> 'wf \<Rightarrow> error + 'wf cavity" where
  "cell_cavity PropagElecField wfrCenter0 =
     cavity_loop PropagElecField npass 0 (cavity_init wfrCenter0)"

text \<open>
  The same loop when the propagation may raise: here \<open>PropagElecField\<close> returns the
  new value of the wavefront or the message of its exception, and the exception ends
  the pass and the loop.
\<close>

definition propag_raising ::
  "(beamline \<Rightarrow> 'wf \<Rightarrow> string + 'wf) \<Rightarrow> nat \<Rightarrow> nat \<Rightarrow> beamline \<Rightarrow> 'wf cavity
     \<Rightarrow> error + 'wf cavity" where
  "propag_raising PropagElecField i a bl s =
     (case PropagElecField bl (heap s ! a) of
        Inl msg \<Rightarrow> Inl (LibraryError msg)
      | Inr v \<Rightarrow> Inr (emit (Propag i bl) (s\<lparr>heap := (heap s)[a := v]\<rparr>)))"

definition cavity_pass_raising ::
  "(beamline \<Rightarrow> 'wf \<Rightarrow> string + 'wf) \<Rightarrow> nat \<Rightarrow> 'wf cavity \<Rightarrow> error + 'wf cavity" where
  "cavity_pass_raising PropagElecField i s =
     (if cavitywfrList s = [] then Inl IndexError
      else
        (let (wfr, s1) = deepcopy (last (cavitywfrList s)) s
         in case propag_raising PropagElecField i wfr propagateRight s1 of
              Inl e \<Rightarrow> Inl e
            | Inr p1 \<Rightarrow>
        (let s2 = append_wfr wfr p1;
             (wfr2, s3) = deepcopy wfr s2
         in case propag_raising PropagElecField i wfr2 propagateDrift s3 of
              Inl e \<Rightarrow> Inl e
            | Inr p2 \<Rightarrow>
        (let s4 = append_wfr wfr2 p2;
             (wfr3, s5) = deepcopy wfr2 s4
         in case propag_raising PropagElecField i wfr3 propagateLeft s5 of
              Inl e \<Rightarrow> Inl e
            | Inr p3 \<Rightarrow>
        (let s6 = append_wfr wfr3 p3;
             (wfr4, s7) = deepcopy wfr3 s6
         in case propag_raising PropagElecField i wfr4 propagateDrift s7 of
              Inl e \<Rightarrow> Inl e
            | Inr p4 \<Rightarrow> Inr (append_wfr wfr4 p4))))))"

function cavity_loop_raising ::
  "(beamline \<Rightarrow> 'wf \<Rightarrow> string + 'wf) \<Rightarrow> nat \<Rightarrow> nat \<Rightarrow> 'wf cavity \<Rightarrow> error + 'wf cavity" where
  "cavity_loop_raising PropagElecField n i s =
     (if i < n then
        (case cavity_pass_raising PropagElecField i s of
           Inl e \<Rightarrow> Inl e
         | Inr s' \<Rightarrow> cavity_loop_raising PropagElecField n (Suc i) s')
      else Inr s)"
  by pat_completeness auto
termination
  by (relation "measure (\<lambda>(P, n, i, s). n - i)") auto

declare cavity_loop_raising.simps [simp del]


text \<open>
  The cell that checks the rms sizes:
  \<^verbatim>\<open>
  for j in range(np.size(cavitywfrList)):
      (sx,sy) = rmsWavefrontIntensity(cavitywfrList[j])
      print(sx,sy)
  \<close>
\<close>

function rms_loop :: "nat \<Rightarrow> nat \<Rightarrow> 'wf cavity \<Rightarrow> error + 'wf cavity" where
  "rms_loop n j s =
     (if j < n then
        (if j < length (cavitywfrList s) then rms_loop n (Suc j) (emit (Rms j) s)
         else Inl IndexError)
      else Inr s)"
  by pat_completeness auto
termination
  by (relation "measure (\<lambda>(n, j, s). n - j)") auto

declare rms_loop.simps [simp del]

definition cell_rms :: "'wf cavity \<Rightarrow> error + 'wf cavity" where
  "cell_rms s = rms_loop (length (cavitywfrList s)) 0 s"

section \<open>The wavefront notebook\<close>

text \<open>
  The cell that exports the initial wavefront:
  \<^verbatim>\<open>
  fname="InitialWavefrontArray.txt"
  np.shape(arIinit2D)
  np.savetxt(fname, arIinit2D, fmt='%.18e')
  \<close>
\<close>

definition cell_export :: "'a tracing_scheme \<Rightarrow> 'a tracing_scheme" where
  "cell_export w =
     (let fname = ''InitialWavefrontArray.txt''
      in emit (SaveTxt fname ''%.18e'') w)"

section \<open>The analytic amplifier notebooks\<close>

text \<open>The speed of light \<open>c\<close> of \<open>scipy.constants\<close>, in metres per second.\<close>

definition scipy_constants_c :: real where
  "scipy_constants_c = 299792458"

text \<open>
  NumPy arrays are lists. An index out of range raises \<open>IndexError\<close>.
\<close>

definition getitem :: "real list \<Rightarrow> nat \<Rightarrow> error + real" where
  "getitem xs i = (if i < length xs then Inr (xs ! i) else Inl IndexError)"

definition setitem :: "real list \<Rightarrow> nat \<Rightarrow> real \<Rightarrow> error + real list" where
  "setitem xs i v = (if i < length xs then Inr (xs[i := v]) else Inl IndexError)"

definition zeros :: "nat \<Rightarrow> real list" where
  "zeros n = replicate n 0"

subsection \<open>laser\_amp\_test\_01\<close>

text \<open>
  The notebook's parameters. The suffix \<open>_amp\<close> tells them from the variables of the
  same names in fn1d\_02.
  \<^verbatim>\<open>
  gamma_ts_1 = 1000.
  gamma_ts_2 = 10.
  gamma_ts = 1 + gamma_ts_1 / gamma_ts_2
  sigma_ts = 8.e-19
  delta_ts = 1.
  n_ph_ts = 1.e6
  n_ph_0 = n_ph_ts
  delta_0 = delta_ts
  time_0 = 0.
  tau_pulse = 1.e-9
  eta_pulse = n_ph_0 * c * tau_pulse
  time_f = tau_pulse
  length_ts = 0.01
  num_points = 10
  dt = (time_f - time_0) / (num_points - 1)
  dz = length_ts / (num_points - 1)
  \<close>
\<close>

definition gamma_ts_amp :: real where
  "gamma_ts_amp = 1 + 1000 / 10"

definition sigma_ts_amp :: real where
  "sigma_ts_amp = 8 / 10 ^ 19"

definition n_ph_0_amp :: real where
  "n_ph_0_amp = 10 ^ 6"

definition time_0 :: real where
  "time_0 = 0"

definition tau_pulse_amp :: real where
  "tau_pulse_amp = 1 / 10 ^ 9"

definition eta_pulse_amp :: real where
  "eta_pulse_amp = n_ph_0_amp * scipy_constants_c * tau_pulse_amp"

definition time_f :: real where
  "time_f = tau_pulse_amp"

definition length_ts_amp :: real where
  "length_ts_amp = 1 / 100"

definition num_points_amp :: nat where
  "num_points_amp = 10"

definition dt_amp :: real where
  "dt_amp = (time_f - time_0) / (real num_points_amp - 1)"

definition dz :: real where
  "dz = length_ts_amp / (real num_points_amp - 1)"

text \<open>
  \<^verbatim>\<open>
  t_data = np.zeros(num_points)
  z_data = np.zeros(num_points)
  for i in range(num_points):
      t_data[i] = time_0 + i*dt
      z_data[i] = i*dz
  \<close>
\<close>

function data_loop :: "nat \<Rightarrow> nat \<Rightarrow> real list \<Rightarrow> real list \<Rightarrow> error + real list \<times> real list" where
  "data_loop n i t_data z_data =
     (if i < n then
        (case setitem t_data i (time_0 + real i * dt_amp) of
           Inl e \<Rightarrow> Inl e
         | Inr t_data' \<Rightarrow>
             (case setitem z_data i (real i * dz) of
                Inl e \<Rightarrow> Inl e
              | Inr z_data' \<Rightarrow> data_loop n (Suc i) t_data' z_data'))
      else Inr (t_data, z_data))"
  by pat_completeness auto
termination
  by (relation "measure (\<lambda>(n, i, t_data, z_data). n - i)") auto

declare data_loop.simps [simp del]

definition cell_data :: "error + real list \<times> real list" where
  "cell_data = data_loop num_points_amp 0 (zeros num_points_amp) (zeros num_points_amp)"

text \<open>
  \<^verbatim>\<open>
  n_data = np.zeros(num_points)
  for j in range(num_points):
      n_data[j] = n_ph_0 / (1. - np.exp(-gamma_ts*sigma_ts*eta_pulse*(t_data[1]-z_data[j]/c)/tau_pulse))
  \<close>
  \<open>denominator\<close> is the divisor of step \<open>j\<close>. NumPy's division by zero gives \<open>inf\<close>
  and a warning, not an exception; HOL's gives 0.
\<close>

definition retarded_time :: "real list \<Rightarrow> real list \<Rightarrow> nat \<Rightarrow> error + real" where
  "retarded_time t_data z_data j =
     (case getitem t_data 1 of
        Inl e \<Rightarrow> Inl e
      | Inr t1 \<Rightarrow>
          (case getitem z_data j of
             Inl e \<Rightarrow> Inl e
           | Inr zj \<Rightarrow> Inr (t1 - zj / scipy_constants_c)))"

definition denominator :: "real list \<Rightarrow> real list \<Rightarrow> nat \<Rightarrow> error + real" where
  "denominator t_data z_data j =
     (case retarded_time t_data z_data j of
        Inl e \<Rightarrow> Inl e
      | Inr tr \<Rightarrow>
          Inr (1 - exp (- gamma_ts_amp * sigma_ts_amp * eta_pulse_amp * tr / tau_pulse_amp)))"

function n_data_loop ::
  "nat \<Rightarrow> nat \<Rightarrow> real list \<Rightarrow> real list \<Rightarrow> real list \<Rightarrow> error + real list" where
  "n_data_loop n j t_data z_data n_data =
     (if j < n then
        (case denominator t_data z_data j of
           Inl e \<Rightarrow> Inl e
         | Inr d \<Rightarrow>
             (case setitem n_data j (n_ph_0_amp / d) of
                Inl e \<Rightarrow> Inl e
              | Inr n_data' \<Rightarrow> n_data_loop n (Suc j) t_data z_data n_data'))
      else Inr n_data)"
  by pat_completeness auto
termination
  by (relation "measure (\<lambda>(n, j, t_data, z_data, n_data). n - j)") auto

declare n_data_loop.simps [simp del]

definition cell_n_data :: "error + real list" where
  "cell_n_data =
     (case cell_data of
        Inl e \<Rightarrow> Inl e
      | Inr (t_data, z_data) \<Rightarrow>
          n_data_loop num_points_amp 0 t_data z_data (zeros num_points_amp))"

subsection \<open>fn1d\_02\<close>

text \<open>
  The variables of the notebook's kernel, and what its cells print.
\<close>

record fn1d = tracing +
  gamma_ts_1 :: real
  gamma_ts_2 :: real
  gamma_ts :: real
  sigma_ts :: real
  delta_ts_0 :: real
  n_ph_0 :: real
  c_cm :: real
  tau_pulse :: real
  eta_pulse :: real
  length_ts :: real
  epsilon_ts :: real
  g_e_max :: real
  factor_ts :: real
  factor_max :: real
  g_e :: real
  delta_ts :: real
  n_ph :: real

text \<open>
  The cell of the initial conditions:
  \<^verbatim>\<open>
  gamma_ts_1 = 1.
  gamma_ts_2 = 1.
  gamma_ts = 1 + gamma_ts_1 / gamma_ts_2
  sigma_ts = 1.5e-19
  delta_ts_0 = 1.e21
  n_ph_0 = 1.e11
  \<close>
\<close>

definition cell_initial :: "fn1d \<Rightarrow> fn1d" where
  "cell_initial s =
     (let s1 = s\<lparr>gamma_ts_1 := 1\<rparr>;
          s2 = s1\<lparr>gamma_ts_2 := 1\<rparr>;
          s3 = s2\<lparr>gamma_ts := 1 + gamma_ts_1 s2 / gamma_ts_2 s2\<rparr>;
          s4 = s3\<lparr>sigma_ts := 15 / 10 ^ 20\<rparr>;
          s5 = s4\<lparr>delta_ts_0 := 10 ^ 21\<rparr>
      in s5\<lparr>n_ph_0 := 10 ^ 11\<rparr>)"

text \<open>
  The cell of the analytic gain, after its two parameters \<open>tau_pulse\<close> and
  \<open>length_ts\<close> are set:
  \<^verbatim>\<open>
  c_cm = 100.*c
  eta_pulse = n_ph_0 * c_cm * tau_pulse
  epsilon_ts = gamma_ts*sigma_ts*eta_pulse
  print('  eta_pulse = ', eta_pulse)
  print(' epsilon_ts = ', epsilon_ts)
  g_e_max = 1. + delta_ts_0*length_ts/gamma_ts/eta_pulse
  factor_ts = sigma_ts*delta_ts_0*length_ts
  factor_max = np.log(g_e_max)
  print('  factor_ts = ', factor_ts)
  print(' factor_max = ', factor_max)
  g_e = g_e_max
  delta_ts = 0.
  if factor_ts < factor_max:
      g_e = np.log(1.+np.exp(factor_ts)*(np.exp(epsilon_ts)-1.))/epsilon_ts
      delta_ts = delta_ts_0 - (gamma_ts*eta_pulse/length_ts) * (g_e - 1.)
  n_ph = g_e * n_ph_0
  print('delta_ts_0 = ', delta_ts_0)
  print('  delta_ts = ', delta_ts)
  print('    n_ph_0 = ', n_ph_0)
  print('       g_e = ', g_e)
  print('      n_ph = ', n_ph)
  \<close>
  A division of Python floats by zero raises \<open>ZeroDivisionError\<close>; the quotient by
  \<open>epsilon_ts\<close> is NumPy's, which does not raise. \<open>np.log\<close> and \<open>np.exp\<close> are HOL's
  \<open>ln\<close> and \<open>exp\<close> on the reals (\<open>np.log\<close> of a number that is not positive is
  \<open>nan\<close> or \<open>-inf\<close>, with a warning). The reals are exact where the code rounds to
  doubles: what the cell assigns, prints and compares is modelled, the digits it loses
  are not. The code's difference \<open>np.exp(epsilon_ts)-1.\<close> cancels for a small
  \<open>epsilon_ts\<close> (below \<open>1.1e-16\<close> it is \<open>0.0\<close>), so an inequality proved of
  \<open>gain_formula\<close> is one of the equation, not of the double the code computes.
  \<open>gain_formula\<close> and \<open>inversion_formula\<close> are the two equations of the conditional's
  body. The computation is cut in four: \<open>gain_setup\<close> runs to the second \<open>print\<close>,
  \<open>gain_bounds\<close> from there to \<open>delta_ts = 0.\<close>, \<open>gain_branch\<close> is the conditional
  and \<open>gain_report\<close> the rest.
\<close>

definition gain_formula :: "real \<Rightarrow> real \<Rightarrow> real" where
  "gain_formula factor epsilon = ln (1 + exp factor * (exp epsilon - 1)) / epsilon"

definition inversion_formula :: "real \<Rightarrow> real \<Rightarrow> real \<Rightarrow> real \<Rightarrow> real \<Rightarrow> real" where
  "inversion_formula delta0 gamma eta len g = delta0 - (gamma * eta / len) * (g - 1)"

definition gain_setup :: "fn1d \<Rightarrow> fn1d" where
  "gain_setup s =
     (let s1 = s\<lparr>c_cm := 100 * scipy_constants_c\<rparr>;
          s2 = s1\<lparr>eta_pulse := n_ph_0 s1 * c_cm s1 * tau_pulse s1\<rparr>;
          s3 = s2\<lparr>epsilon_ts := gamma_ts s2 * sigma_ts s2 * eta_pulse s2\<rparr>;
          s4 = emit (Print ''  eta_pulse = '' (eta_pulse s3)) s3
      in emit (Print '' epsilon_ts = '' (epsilon_ts s4)) s4)"

definition gain_bounds :: "fn1d \<Rightarrow> error option \<times> fn1d" where
  "gain_bounds s =
     (if gamma_ts s = 0 \<or> eta_pulse s = 0 then (Some ZeroDivisionError, s)
      else
        (let s1 = s\<lparr>g_e_max := 1 + delta_ts_0 s * length_ts s / gamma_ts s / eta_pulse s\<rparr>;
             s2 = s1\<lparr>factor_ts := sigma_ts s1 * delta_ts_0 s1 * length_ts s1\<rparr>;
             s3 = s2\<lparr>factor_max := ln (g_e_max s2)\<rparr>;
             s4 = emit (Print ''  factor_ts = '' (factor_ts s3)) s3;
             s5 = emit (Print '' factor_max = '' (factor_max s4)) s4;
             s6 = s5\<lparr>g_e := g_e_max s5\<rparr>
         in (None, s6\<lparr>delta_ts := 0\<rparr>)))"

definition gain_branch :: "fn1d \<Rightarrow> error option \<times> fn1d" where
  "gain_branch s =
     (if factor_ts s < factor_max s then
        (let s1 = s\<lparr>g_e := gain_formula (factor_ts s) (epsilon_ts s)\<rparr>
         in if length_ts s1 = 0 then (Some ZeroDivisionError, s1)
            else (None, s1\<lparr>delta_ts := inversion_formula (delta_ts_0 s1) (gamma_ts s1) (eta_pulse s1)
                                          (length_ts s1) (g_e s1)\<rparr>))
      else (None, s))"

definition gain_report :: "fn1d \<Rightarrow> fn1d" where
  "gain_report s =
     (let s1 = s\<lparr>n_ph := g_e s * n_ph_0 s\<rparr>;
          s2 = emit (Print ''delta_ts_0 = '' (delta_ts_0 s1)) s1;
          s3 = emit (Print ''  delta_ts = '' (delta_ts s2)) s2;
          s4 = emit (Print ''    n_ph_0 = '' (n_ph_0 s3)) s3;
          s5 = emit (Print ''       g_e = '' (g_e s4)) s4
      in emit (Print ''      n_ph = '' (n_ph s5)) s5)"

definition analytic_gain :: "fn1d \<Rightarrow> error option \<times> fn1d" where
  "analytic_gain s =
     (case gain_bounds (gain_setup s) of
        (Some e, s1) \<Rightarrow> (Some e, s1)
      | (None, s1) \<Rightarrow>
          (case gain_branch s1 of
             (Some e, s2) \<Rightarrow> (Some e, s2)
           | (None, s2) \<Rightarrow> (None, gain_report s2)))"

text \<open>
  The whole cell: \<^verbatim>\<open>tau_pulse = 1.e-9\<close> and \<^verbatim>\<open>length_ts = 1.\<close>, then the
  computation. (The source sets \<open>length_ts\<close> after \<open>eta_pulse\<close>, which does not read it.)
\<close>

definition gain_input :: "fn1d \<Rightarrow> fn1d" where
  "gain_input s = s\<lparr>tau_pulse := 1 / 10 ^ 9, length_ts := 1\<rparr>"

definition cell_gain :: "fn1d \<Rightarrow> error option \<times> fn1d" where
  "cell_gain s = analytic_gain (gain_input s)"

text \<open>A kernel in which no cell has run yet: every variable is still to be assigned.\<close>

definition kernel0 :: fn1d where
  "kernel0 = \<lparr>trace = [], gamma_ts_1 = 0, gamma_ts_2 = 0, gamma_ts = 0, sigma_ts = 0,
     delta_ts_0 = 0, n_ph_0 = 0, c_cm = 0, tau_pulse = 0, eta_pulse = 0, length_ts = 0,
     epsilon_ts = 0, g_e_max = 0, factor_ts = 0, factor_max = 0, g_e = 0, delta_ts = 0,
     n_ph = 0\<rparr>"

text \<open>What a run of a cell prints: the lines it adds to the trace.\<close>

definition cell_output :: "fn1d \<Rightarrow> error option \<times> fn1d \<Rightarrow> (string \<times> real) list" where
  "cell_output s r = printed (drop (length (trace s)) (trace (snd r)))"

text \<open>
  The plotting cell's loop:
  \<^verbatim>\<open>
  num_points = 100
  delta_ts_1 = np.zeros(num_points)
  for i in range(num_points):
      x = i*length_ts/(num_points-1)
      delta_ts_1[i] = delta_ts_0 / (1.+np.exp(sigma_ts*delta_ts_0*x)*(np.exp(epsilon_ts)-1.))
  \<close>
\<close>

definition num_points :: nat where
  "num_points = 100"

function profile_loop :: "fn1d \<Rightarrow> nat \<Rightarrow> nat \<Rightarrow> real list \<Rightarrow> error + real list" where
  "profile_loop s n i delta_ts_1 =
     (if i < n then
        (let x = real i * length_ts s / (real n - 1)
         in case setitem delta_ts_1 i
                   (delta_ts_0 s / (1 + exp (sigma_ts s * delta_ts_0 s * x) * (exp (epsilon_ts s) - 1))) of
              Inl e \<Rightarrow> Inl e
            | Inr delta_ts_1' \<Rightarrow> profile_loop s n (Suc i) delta_ts_1')
      else Inr delta_ts_1)"
  by pat_completeness auto
termination
  by (relation "measure (\<lambda>(s, n, i, delta_ts_1). n - i)") auto

declare profile_loop.simps [simp del]

definition cell_profile :: "fn1d \<Rightarrow> error + real list" where
  "cell_profile s = profile_loop s num_points 0 (zeros num_points)"

section \<open>Definitions used in the proofs\<close>

text \<open>
  The calls of a time loop one after the other, from step \<open>n\<close> and the value \<open>v\<close>:
  \<open>call n\<close> is what step \<open>n\<close> computes from the previous solution, or the message of
  the exception it raises. \<open>run_steps\<close> is the solution after the last step, or the
  first step at which a call raises, with its message. \<open>save_step\<close> is a step of the
  heat notebook's saving loop: \<open>solve\<close>, then \<open>plt.savefig\<close> on \<open>u_plot n\<close>, the
  name of the file of step \<open>n\<close>.
\<close>

function run_steps ::
  "(nat \<Rightarrow> 'u \<Rightarrow> string + 'u) \<Rightarrow> nat \<Rightarrow> nat \<Rightarrow> 'u \<Rightarrow> (nat \<times> string) + 'u" where
  "run_steps call nsteps n v =
     (if n < nsteps then
        (case call n v of
           Inl msg \<Rightarrow> Inl (n, msg)
         | Inr v' \<Rightarrow> run_steps call nsteps (Suc n) v')
      else Inr v)"
  by pat_completeness auto
termination
  by (relation "measure (\<lambda>(call, nsteps, n, v). nsteps - n)") auto

declare run_steps.simps [simp del]

definition u_plot :: "nat \<Rightarrow> string" where
  "u_plot n = ''heat_2D_sqr/'' @ ''u_plot_'' @ str n @ ''.png''"

definition save_step :: "('u, 'u) libraries \<Rightarrow> nat \<Rightarrow> 'u \<Rightarrow> string + 'u" where
  "save_step lib n v =
     (case solve lib v of
        Inl msg \<Rightarrow> Inl msg
      | Inr v' \<Rightarrow> (case savefig lib (u_plot n) of Inl msg \<Rightarrow> Inl msg | Inr _ \<Rightarrow> Inr v'))"

text \<open>
  With \<open>base\<close> the solver calls made, and \<open>fw\<close> the files written, before the generator
  of the heat-diffusion notebook was created, and \<open>rs\<close> what the solver calls of all the
  steps come to: \<open>evolve_inv\<close> is what holds whenever \<open>next\<close> is called,
  \<open>evolve_raised\<close> what holds when an exception \<open>e\<close> comes out of \<open>next\<close>, and
  \<open>evolve_measure\<close> bounds the steps the generator has left.
\<close>

definition evolve_inv ::
  "('u, 'u) libraries \<Rightarrow> nat \<Rightarrow> nat list \<Rightarrow> string list \<Rightarrow> (nat \<times> string) + 'u
     \<Rightarrow> 'u evolve_gen \<Rightarrow> 'u world \<Rightarrow> bool" where
  "evolve_inv lib nsteps base fw rs g w =
     (files_written (trace w) = fw \<and>
      (case g of
         Created \<Rightarrow>
           solver_calls (trace w) = base \<and> run_steps (\<lambda>n. solve lib) nsteps 0 (u_n w) = rs
       | Suspended n u t \<Rightarrow>
           n < nsteps \<and> solver_calls (trace w) = base @ [0..<Suc n] \<and>
           run_steps (\<lambda>n. solve lib) nsteps (Suc n) u = rs
       | Finished \<Rightarrow> solver_calls (trace w) = base @ [0..<nsteps] \<and> rs = Inr (u_n w)))"

definition evolve_raised ::
  "('u, 'u) libraries \<Rightarrow> nat \<Rightarrow> nat list \<Rightarrow> string list \<Rightarrow> (nat \<times> string) + 'u \<Rightarrow> error
     \<Rightarrow> 'u evolve_gen \<Rightarrow> 'u world \<Rightarrow> bool" where
  "evolve_raised lib nsteps base fw rs e g w =
     (g = Finished \<and> files_written (trace w) = fw \<and>
      (case e of
         StopIteration \<Rightarrow> solver_calls (trace w) = base @ [0..<nsteps] \<and> rs = Inr (u_n w)
       | LibraryError msg \<Rightarrow>
           solve lib (u_n w) = Inl msg \<and> trace w \<noteq> [] \<and>
           (case last (trace w) of
              Solve n \<Rightarrow>
                n < nsteps \<and> solver_calls (trace w) = base @ [0..<Suc n] \<and> rs = Inl (n, msg)
            | _ \<Rightarrow> False)
       | _ \<Rightarrow> False))"

definition evolve_measure :: "nat \<Rightarrow> 'u evolve_gen \<Rightarrow> nat" where
  "evolve_measure nsteps g =
     (case g of Created \<Rightarrow> Suc nsteps | Suspended n u t \<Rightarrow> nsteps - n | Finished \<Rightarrow> 0)"

text \<open>
  The \<open>for\<close> loop over the amplifier notebook's generator, after one \<open>next\<close>; and the
  step the generator yields once more after its loop, if any.
\<close>

definition after_next ::
  "('g \<Rightarrow> 'a tracing_scheme \<Rightarrow> (error + nat) \<times> 'g \<times> 'a tracing_scheme) \<Rightarrow> int \<Rightarrow> int \<Rightarrow> int
     \<Rightarrow> (error + nat) \<times> 'g \<times> 'a tracing_scheme
     \<Rightarrow> ((error + int) \<times> 'g \<times> 'a tracing_scheme) option" where
  "after_next nxt n_rows n_cols idx res =
     (case res of
        (Inl e, g', w') \<Rightarrow> Some (if e = StopIteration then Inr idx else Inl e, g', w')
      | (Inr u, g', w') \<Rightarrow>
          for_u_in nxt n_rows n_cols (idx + 1) g'
            (emit (Plot u) (emit (Subplot n_rows n_cols (idx + 1)) w')))"

definition final_yield :: "nat \<Rightarrow> nat list" where
  "final_yield nsteps = (if (nsteps - 1) mod nip_fn06d = 0 then [nsteps - 1] else [])"

text \<open>
  In the cavity notebook every listed address is an object of the heap, and a pass
  propagates through four beamlines, one after the other. \<open>propagate_through\<close> is a
  wavefront's value after a list of propagations, or the message of the first that
  raises.
\<close>

definition cavity_inv :: "'wf cavity \<Rightarrow> bool" where
  "cavity_inv s = (cavitywfrList s \<noteq> [] \<and> list_all (\<lambda>a. a < length (heap s)) (cavitywfrList s))"

definition pass_calls :: "nat \<Rightarrow> (nat \<times> beamline) list" where
  "pass_calls i = [(i, propagateRight), (i, propagateDrift), (i, propagateLeft), (i, propagateDrift)]"








definition no_directory :: "('i \<Rightarrow> 'u) \<Rightarrow> 'u \<Rightarrow> ('i, 'u) libraries" where
  "no_directory f u0 = \<lparr>solve = (\<lambda>v. Inr (f v)), Function_V = u0,
                         savefig = (\<lambda>name. Inl ''FileNotFoundError'')\<rparr>"



text \<open>A kernel that has printed before and holds values of an earlier run.\<close>

definition stale_kernel :: fn1d where
  "stale_kernel = kernel0\<lparr>trace := [Print ''      n_ph = '' 1], g_e := 7, delta_ts := 3\<rparr>"

section \<open>Properties of the heat-diffusion notebook\<close>

lemma drain_resume: "drain nxt acc g w = resume nxt acc (nxt g w)"
  by (subst drain.simps) (simp add: resume_def)

lemma solve_returning [simp]: "solve (returning f u0) v = Inr (f v)"
  by (simp add: returning_def)

lemma Function_V_returning [simp]: "Function_V (returning f u0) = u0"
  by (simp add: returning_def)

lemma savefig_returning [simp]: "savefig (returning f u0) name = Inr ()"
  by (simp add: returning_def)

lemma no_directory_simps [simp]:
  "solve (no_directory f u0) v = Inr (f v)"
  "Function_V (no_directory f u0) = u0"
  "savefig (no_directory f u0) name = Inl ''FileNotFoundError''"
  by (simp_all add: no_directory_def)

lemma run_steps_done [simp]: "nsteps \<le> n \<Longrightarrow> run_steps call nsteps n v = Inr v"
  by (simp add: run_steps.simps [of _ nsteps n])

lemma run_steps_step:
  "n < nsteps \<Longrightarrow>
   run_steps call nsteps n v
     = (case call n v of Inl msg \<Rightarrow> Inl (n, msg) | Inr v' \<Rightarrow> run_steps call nsteps (Suc n) v')"
  by (simp add: run_steps.simps [of _ nsteps n])

lemma run_steps_returning:
  "nsteps - n = k \<Longrightarrow> run_steps (\<lambda>n v. Inr (f v)) nsteps n v = Inr ((f ^^ k) v)"
proof (induction k arbitrary: n v)
  case 0
  then show ?case by simp
next
  case (Suc k)
  then have lt: "n < nsteps" and k: "nsteps - Suc n = k" by simp_all
  show ?case
    using lt Suc.IH [OF k] by (simp add: run_steps_step funpow_swap1)
qed

lemma trace_emit [simp]: "trace (emit e w) = trace w @ [e]"
  by (simp add: emit_def)

lemma u_n_emit [simp]: "u_n (emit e w) = u_n w"
  by (simp add: emit_def)

lemma solver_calls_append [simp]: "solver_calls (a @ b) = solver_calls a @ solver_calls b"
  by (induction a rule: solver_calls.induct) simp_all

lemma plots_append [simp]: "plots (a @ b) = plots a @ plots b"
  by (induction a rule: plots.induct) simp_all

lemma files_written_append [simp]: "files_written (a @ b) = files_written a @ files_written b"
  by (induction a rule: files_written.induct) simp_all

lemma printed_append [simp]: "printed (a @ b) = printed a @ printed b"
  by (induction a rule: printed.induct) simp_all

lemma propag_calls_append [simp]: "propag_calls (a @ b) = propag_calls a @ propag_calls b"
  by (induction a rule: propag_calls.induct) simp_all

lemma multiplot_row_measure:
  assumes dec: "\<And>g w v g' w'. nxt g w = (Inr v, g', w') \<Longrightarrow> m g' < (m g :: nat)"
  shows "multiplot_row nxt nc k g w = (Inr x, g', w') \<Longrightarrow> m g' + k \<le> m g"
proof (induction k arbitrary: g w)
  case 0
  then show ?case by simp
next
  case (Suc k)
  obtain r g1 w1 where n: "nxt g (emit (Subplot 1 nc (nc - int (Suc k) + 1)) w) = (r, g1, w1)"
    by (metis prod_cases3)
  show ?case
  proof (cases r)
    case (Inl e)
    with Suc.prems n show ?thesis by (simp add: Let_def)
  next
    case (Inr v)
    with Suc.prems n have "multiplot_row nxt nc k g1 w1 = (Inr x, g', w')"
      by (simp add: Let_def)
    then have "m g' + k \<le> m g1" by (rule Suc.IH)
    moreover have "m g1 < m g" using dec n Inr by blast
    ultimately show ?thesis by simp
  qed
qed


lemma multiplot_row_inv:
  assumes sub: "\<And>g w a b c. I g w \<Longrightarrow> I g (emit (Subplot a b c) w)"
    and step: "\<And>g w v g' w'. I g w \<Longrightarrow> nxt g w = (Inr v, g', w') \<Longrightarrow> I g' w'"
    and err: "\<And>g w e g' w'. I g w \<Longrightarrow> nxt g w = (Inl e, g', w') \<Longrightarrow> Q e g' w'"
  shows "I g w \<Longrightarrow> multiplot_row nxt nc k g w = (r, g', w')
           \<Longrightarrow> (case r of Inl e \<Rightarrow> Q e g' w' | Inr _ \<Rightarrow> I g' w')"
proof (induction k arbitrary: g w)
  case 0
  then show ?case by auto
next
  case (Suc k)
  let ?w1 = "emit (Subplot 1 nc (nc - int (Suc k) + 1)) w"
  have I1: "I g ?w1" using Suc.prems(1) by (rule sub)
  obtain r1 g1 w1 where n: "nxt g ?w1 = (r1, g1, w1)"
    by (metis prod_cases3)
  show ?case
  proof (cases r1)
    case (Inl e)
    with n I1 have "Q e g1 w1" using err by blast
    with Suc.prems(2) n Inl show ?thesis by (auto simp: Let_def)
  next
    case (Inr v)
    with n I1 have "I g1 w1" using step by blast
    moreover from Suc.prems(2) n Inr have "multiplot_row nxt nc k g1 w1 = (r, g', w')"
      by (simp add: Let_def)
    ultimately show ?thesis by (rule Suc.IH)
  qed
qed

lemma multiplot_while_inv:
  assumes fig: "\<And>g w a b. I g w \<Longrightarrow> I g (emit (Figure a b) w)"
    and sub: "\<And>g w a b c. I g w \<Longrightarrow> I g (emit (Subplot a b c) w)"
    and step: "\<And>g w v g' w'. I g w \<Longrightarrow> nxt g w = (Inr v, g', w') \<Longrightarrow> I g' w'"
    and err: "\<And>g w e g' w'. I g w \<Longrightarrow> nxt g w = (Inl e, g', w') \<Longrightarrow> Q e g' w'"
    and dec: "\<And>g w v g' w'. nxt g w = (Inr v, g', w') \<Longrightarrow> m g' < (m g :: nat)"
    and pos: "0 < nc"
  shows "I g w \<Longrightarrow> \<exists>e g' w'. multiplot_while nxt nc fs g w = Some (e, g', w') \<and> Q e g' w'"
proof (induction "m g" arbitrary: g w rule: less_induct)
  case less
  let ?w0 = "emit (Figure (fst fs) (snd fs)) w"
  have I0: "I g ?w0" using less.prems by (rule fig)
  obtain r g1 w1 where row: "multiplot_row nxt nc (nat nc) g ?w0 = (r, g1, w1)"
    by (metis prod_cases3)
  have post: "case r of Inl e \<Rightarrow> Q e g1 w1 | Inr _ \<Rightarrow> I g1 w1"
    using multiplot_row_inv [of I nxt Q, OF sub step err I0 row] .
  show ?case
  proof (cases r)
    case (Inl e)
    with row post show ?thesis by (subst multiplot_while.simps) simp
  next
    case (Inr x)
    with row have "m g1 + nat nc \<le> m g"
      using multiplot_row_measure [of nxt m nc "nat nc" g _ x g1 w1] dec by blast
    with pos have "m g1 < m g" by simp
    moreover have "I g1 w1" using post Inr by simp
    ultimately obtain e g' w' where
      "multiplot_while nxt nc fs g1 w1 = Some (e, g', w') \<and> Q e g' w'"
      using less.hyps by blast
    with row Inr show ?thesis by (subst multiplot_while.simps) simp
  qed
qed


text \<open>
  With a solver that returns, draining \<open>evolve\<close> from step \<open>n\<close> yields the steps from
  \<open>n\<close> on that are multiples of \<open>nip\<close>, and ends by \<open>StopIteration\<close>.
\<close>

lemma resume_evolve_loop:
  "nsteps - n = k \<Longrightarrow>
   \<exists>w'. resume (evolve_next (returning f u0) nsteps dt) acc
           (evolve_loop (returning f u0) nsteps dt n u t w)
         = Some (acc @ filter (\<lambda>m. m mod nip_xt02 = 0) [n..<nsteps], StopIteration, Finished, w')
       \<and> plots (trace w') = plots (trace w) @ filter (\<lambda>m. m mod nip_xt02 = 0) [n..<nsteps]"
proof (induction k arbitrary: n u t w acc)
  case 0
  then have "\<not> n < nsteps" by simp
  then show ?case
    by (subst evolve_loop.simps) (simp add: resume_def)
next
  case (Suc k)
  then have lt: "n < nsteps" and k: "nsteps - Suc n = k" by simp_all
  have upt: "[n..<nsteps] = n # [Suc n..<nsteps]"
    using lt by (simp add: upt_conv_Cons)
  show ?case
  proof (cases "n mod nip_xt02 = 0")
    case True
    let ?w = "emit (Assign n) ((emit (Plot n) (emit (Solve n) w))\<lparr>u_n := f (u_n w)\<rparr>)"
    obtain w' where
      "resume (evolve_next (returning f u0) nsteps dt) (acc @ [n])
         (evolve_loop (returning f u0) nsteps dt (Suc n) (f (u_n w)) (t + dt) ?w)
       = Some ((acc @ [n]) @ filter (\<lambda>m. m mod nip_xt02 = 0) [Suc n..<nsteps],
               StopIteration, Finished, w')"
      "plots (trace w') = plots (trace ?w) @ filter (\<lambda>m. m mod nip_xt02 = 0) [Suc n..<nsteps]"
      using Suc.IH [OF k] by blast
    then show ?thesis
      using lt True upt
      by (subst evolve_loop.simps)
         (simp add: resume_def [of _ acc] drain_resume evolve_next_def Let_def)
  next
    case False
    let ?w = "emit (Assign n) ((emit (Solve n) w)\<lparr>u_n := f (u_n w)\<rparr>)"
    obtain w' where
      "resume (evolve_next (returning f u0) nsteps dt) acc
         (evolve_loop (returning f u0) nsteps dt (Suc n) (f (u_n w)) (t + dt) ?w)
       = Some (acc @ filter (\<lambda>m. m mod nip_xt02 = 0) [Suc n..<nsteps],
               StopIteration, Finished, w')"
      "plots (trace w') = plots (trace ?w) @ filter (\<lambda>m. m mod nip_xt02 = 0) [Suc n..<nsteps]"
      using Suc.IH [OF k] by blast
    then show ?thesis
      using lt False upt
      by (subst evolve_loop.simps) (simp add: Let_def)
  qed
qed

lemma drain_evolve_next:
  "\<exists>w'. drain (evolve_next (returning f u0) nsteps dt) [] Created w
         = Some (filter (\<lambda>m. m mod nip_xt02 = 0) [0..<nsteps], StopIteration, Finished, w')
       \<and> plots (trace w') = plots (trace w) @ filter (\<lambda>m. m mod nip_xt02 = 0) [0..<nsteps]"
proof -
  obtain w' where
    "resume (evolve_next (returning f u0) nsteps dt) []
       (evolve_loop (returning f u0) nsteps dt 0 u0 0 w)
     = Some ([] @ filter (\<lambda>m. m mod nip_xt02 = 0) [0..<nsteps], StopIteration, Finished, w')"
    "plots (trace w') = plots (trace w) @ filter (\<lambda>m. m mod nip_xt02 = 0) [0..<nsteps]"
    using resume_evolve_loop [of nsteps 0 nsteps f u0 dt "[]" u0 0 w] by auto
  then show ?thesis
    by (simp add: drain_resume [of _ "[]" Created] evolve_next_def)
qed

lemma yields_evolve_next:
  "yields (evolve_next (returning f u0) nsteps dt) Created w
     = Some (filter (\<lambda>m. m mod nip_xt02 = 0) [0..<nsteps])"
  using drain_evolve_next [of f u0 nsteps dt w] by (auto simp: yields_def)

lemma multiples_of_10_below_50:
  "filter (\<lambda>m. m mod 10 = 0) [0..<50] = [0, 10, 20, 30, 40 :: nat]"
  by (simp add: upt_rec)

lemma evolve_loop_post:
  "n \<le> nsteps \<Longrightarrow> solver_calls (trace w) = base @ [0..<n] \<Longrightarrow>
   files_written (trace w) = fw \<Longrightarrow>
   run_steps (\<lambda>n. solve lib) nsteps n (u_n w) = rs \<Longrightarrow>
   evolve_loop lib nsteps dt n u t w = (r, g', w') \<Longrightarrow>
   (case r of
      Inl e \<Rightarrow> evolve_raised lib nsteps base fw rs e g' w'
    | Inr m \<Rightarrow> n \<le> m \<and> evolve_inv lib nsteps base fw rs g' w' \<and> (\<exists>u' t'. g' = Suspended m u' t'))"
proof (induction lib nsteps dt n u t w rule: evolve_loop.induct)
  case (1 lib nsteps dt n u t w)
  show ?case
  proof (cases "n < nsteps")
    case False
    with "1.prems" show ?thesis
      by (subst (asm) evolve_loop.simps) (auto simp: evolve_raised_def)
  next
    case lt: True
    show ?thesis
    proof (cases "solve lib (u_n w)")
      case (Inl msg)
      with lt "1.prems" show ?thesis
        by (subst (asm) evolve_loop.simps)
           (auto simp: evolve_raised_def Let_def run_steps_step)
    next
      case (Inr u1)
      have rs: "run_steps (\<lambda>n. solve lib) nsteps (Suc n) u1 = rs"
        using lt Inr "1.prems"(4) by (simp add: run_steps_step)
      show ?thesis
      proof (cases "n mod nip_xt02 = 0")
        case True
        with lt Inr "1.prems" rs show ?thesis
          by (subst (asm) evolve_loop.simps) (auto simp: evolve_inv_def Let_def)
      next
        case False
        let ?w = "emit (Assign n) ((emit (Solve n) w)\<lparr>u_n := u1\<rparr>)"
        have rec: "evolve_loop lib nsteps dt (Suc n) u1 (t + dt) ?w = (r, g', w')"
          using lt Inr False "1.prems"(5)
          by (subst (asm) evolve_loop.simps) (simp add: Let_def)
        have "case r of
                Inl e \<Rightarrow> evolve_raised lib nsteps base fw rs e g' w'
              | Inr m \<Rightarrow> Suc n \<le> m \<and> evolve_inv lib nsteps base fw rs g' w'
                         \<and> (\<exists>u' t'. g' = Suspended m u' t')"
          using "1.IH" [OF lt refl refl Inr [simplified u_n_emit [symmetric, of w "Solve n"]] False
              _ _ _ _ rec] lt "1.prems"(2,3) rs
          by simp
        then show ?thesis by (auto split: sum.splits)
      qed
    qed
  qed
qed


lemma evolve_loop_yield:
  "evolve_loop lib nsteps dt n u t w = (Inr m, g', w') \<Longrightarrow>
   n \<le> m \<and> m < nsteps \<and> (\<exists>u' t'. g' = Suspended m u' t')"
proof (induction lib nsteps dt n u t w rule: evolve_loop.induct)
  case (1 lib nsteps dt n u t w)
  show ?case
  proof (cases "n < nsteps \<and> (\<exists>u1. solve lib (u_n w) = Inr u1) \<and> n mod nip_xt02 \<noteq> 0")
    case False
    with "1.prems" show ?thesis
      by (subst (asm) evolve_loop.simps) (auto simp: Let_def split: if_splits sum.splits)
  next
    case True
    then obtain u1 where lt: "n < nsteps" and u1: "solve lib (u_n w) = Inr u1"
      and nz: "n mod nip_xt02 \<noteq> 0" by blast
    let ?w = "emit (Assign n) ((emit (Solve n) w)\<lparr>u_n := u1\<rparr>)"
    have rec: "evolve_loop lib nsteps dt (Suc n) u1 (t + dt) ?w = (Inr m, g', w')"
      using lt u1 nz "1.prems"
      by (subst (asm) evolve_loop.simps) (simp add: Let_def)
    have "Suc n \<le> m \<and> m < nsteps \<and> (\<exists>u' t'. g' = Suspended m u' t')"
      using "1.IH" [OF lt refl refl u1 [simplified u_n_emit [symmetric, of w "Solve n"]] nz rec] .
    then show ?thesis by auto
  qed
qed

lemma evolve_next_dec:
  "evolve_next lib nsteps dt g w = (Inr v, g', w') \<Longrightarrow>
   evolve_measure nsteps g' < evolve_measure nsteps g"
  by (cases g) (auto simp: evolve_next_def evolve_measure_def dest!: evolve_loop_yield)

lemma evolve_next_step:
  assumes "evolve_inv lib nsteps base fw rs g w"
    and "evolve_next lib nsteps dt g w = (Inr v, g', w')"
  shows "evolve_inv lib nsteps base fw rs g' w'"
proof (cases g)
  case Created
  with assms show ?thesis
    using evolve_loop_post [of 0 nsteps w base fw lib rs dt "Function_V lib" 0 "Inr v" g' w']
    by (simp add: evolve_next_def evolve_inv_def)
next
  case (Suspended n u t)
  with assms show ?thesis
    using evolve_loop_post [of "Suc n" nsteps "emit (Assign n) (w\<lparr>u_n := u\<rparr>)" base fw lib rs dt
        u t "Inr v" g' w']
    by (simp add: evolve_next_def evolve_inv_def)
next
  case Finished
  with assms show ?thesis by (simp add: evolve_next_def)
qed

lemma evolve_next_err:
  assumes "evolve_inv lib nsteps base fw rs g w"
    and "evolve_next lib nsteps dt g w = (Inl e, g', w')"
  shows "evolve_raised lib nsteps base fw rs e g' w'"
proof (cases g)
  case Created
  with assms show ?thesis
    using evolve_loop_post [of 0 nsteps w base fw lib rs dt "Function_V lib" 0 "Inl e" g' w']
    by (simp add: evolve_next_def evolve_inv_def)
next
  case (Suspended n u t)
  with assms show ?thesis
    using evolve_loop_post [of "Suc n" nsteps "emit (Assign n) (w\<lparr>u_n := u\<rparr>)" base fw lib rs dt
        u t "Inl e" g' w']
    by (simp add: evolve_next_def evolve_inv_def)
next
  case Finished
  with assms show ?thesis by (auto simp: evolve_next_def evolve_inv_def evolve_raised_def)
qed

lemma evolve_inv_emit:
  "evolve_inv lib nsteps base fw rs g w \<Longrightarrow> solver_calls [e] = [] \<Longrightarrow> files_written [e] = [] \<Longrightarrow>
   evolve_inv lib nsteps base fw rs g (emit e w)"
  by (cases g) (simp_all add: evolve_inv_def)

lemma multiplot_while_evolve:
  assumes "0 < nc"
  shows "\<exists>e g' w'. multiplot_while (evolve_next lib nsteps dt) nc fs Created w = Some (e, g', w')
           \<and> evolve_raised lib nsteps (solver_calls (trace w)) (files_written (trace w))
                 (run_steps (\<lambda>n. solve lib) nsteps 0 (u_n w)) e g' w'"
proof (rule multiplot_while_inv
    [where I = "evolve_inv lib nsteps (solver_calls (trace w)) (files_written (trace w))
                  (run_steps (\<lambda>n. solve lib) nsteps 0 (u_n w))"
        and m = "evolve_measure nsteps"])
  show "evolve_inv lib nsteps (solver_calls (trace w)) (files_written (trace w))
          (run_steps (\<lambda>n. solve lib) nsteps 0 (u_n w)) Created w"
    by (simp add: evolve_inv_def)
qed (use assms in \<open>auto intro: evolve_inv_emit evolve_next_step evolve_next_err evolve_next_dec\<close>)

lemma multiplot_while_no_columns:
  "multiplot_while nxt 0 figsize g w = None"
proof -
  have "multiplot_while nxt nc figsize g w = Some y \<Longrightarrow> nc \<noteq> 0" for nc y
  proof (induction rule: multiplot_while.raw_induct [rotated 1, consumes 1])
    case (1 multiplot_while' nxt nc figsize g w y)
    show ?case
    proof
      assume z: "nc = 0"
      with 1(2) have "multiplot_while' nxt 0 figsize g (emit (Figure (fst figsize) (snd figsize)) w) = Some y"
        by simp
      then have "(0::int) \<noteq> 0" by (rule 1(1))
      then show False by simp
    qed
  qed
  then show ?thesis by (cases "multiplot_while nxt 0 figsize g w") auto
qed

text \<open>
  The cell \<open>multiplot_from_generator(evolve(), 5)\<close> with any libraries: it returns; it
  ends with the exception of the first solver call that raises, right after that call,
  and returns normally when none raises, with the solver called once at each step.
\<close>

lemma cell_multiplot_run:
  "\<exists>r w'. cell_multiplot lib w = Some (r, Finished, w')
     \<and> files_written (trace w') = files_written (trace w)
     \<and> (case run_steps (\<lambda>n. solve lib) num_steps 0 (u_n w) of
          Inr v \<Rightarrow>
            r = Inr () \<and> u_n w' = v
            \<and> solver_calls (trace w') = solver_calls (trace w) @ [0..<num_steps]
        | Inl (k, msg) \<Rightarrow>
            r = Inl (LibraryError msg) \<and> k < num_steps \<and> last (trace w') = Solve k
            \<and> solver_calls (trace w') = solver_calls (trace w) @ [0..<Suc k])"
proof -
  let ?rs = "run_steps (\<lambda>n. solve lib) num_steps 0 (u_n w)"
  obtain e g' w' where
    run: "multiplot_while (evolve_next lib num_steps dt_xt02) 5 (15, 15 / real_of_int 5) Created w
            = Some (e, g', w')"
    and post: "evolve_raised lib num_steps (solver_calls (trace w)) (files_written (trace w))
                 ?rs e g' w'"
    using multiplot_while_evolve [of 5 lib num_steps dt_xt02 "(15, 15 / real_of_int 5)" w] by auto
  have cell: "cell_multiplot lib w
                = Some (if e = StopIteration then Inr () else Inl e, g', w')"
    using run
    by (simp add: cell_multiplot_def multiplot_from_generator_def evolve_def
        handle_StopIteration_def)
  show ?thesis
  proof (cases e)
    case StopIteration
    with post cell show ?thesis by (simp add: evolve_raised_def)
  next
    case (LibraryError msg)
    with post have "g' = Finished" and "files_written (trace w') = files_written (trace w)"
      and "case last (trace w') of
             Solve n \<Rightarrow> n < num_steps
                        \<and> solver_calls (trace w') = solver_calls (trace w) @ [0..<Suc n]
                        \<and> ?rs = Inl (n, msg)
           | _ \<Rightarrow> False"
      by (simp_all add: evolve_raised_def)
    with cell LibraryError show ?thesis
      by (cases "last (trace w')") auto
  qed (use post in \<open>simp_all add: evolve_raised_def\<close>)
qed

lemma cell_multiplot_returning_trace:
  "\<exists>w'. cell_multiplot (returning f u0) w = Some (Inr (), Finished, w')
     \<and> solver_calls (trace w') = solver_calls (trace w) @ [0..<num_steps]
     \<and> files_written (trace w') = files_written (trace w)
     \<and> u_n w' = (f ^^ num_steps) (u_n w)"
proof -
  have "run_steps (\<lambda>n. solve (returning f u0)) num_steps 0 (u_n w)
          = Inr ((f ^^ num_steps) (u_n w))"
    using run_steps_returning [of num_steps 0 num_steps f "u_n w"]
    by (simp add: returning_def)
  then show ?thesis
    using cell_multiplot_run [of "returning f u0" w] by auto
qed



section \<open>Properties of the time loops\<close>

lemma fn06d_emit [simp]: "nph_j (emit e w) = nph_j w" "Dcr_j (emit e w) = Dcr_j w"
  by (simp_all add: emit_def)

lemma savefig_loop_returning:
  "nsteps - n = k \<Longrightarrow>
   fst (savefig_loop (returning f u0) nsteps dt n u t w) = Inr ()
   \<and> solver_calls (trace (snd (snd (savefig_loop (returning f u0) nsteps dt n u t w))))
       = solver_calls (trace w) @ [n..<nsteps]
   \<and> plots (trace (snd (snd (savefig_loop (returning f u0) nsteps dt n u t w))))
       = plots (trace w) @ [n..<nsteps]
   \<and> files_written (trace (snd (snd (savefig_loop (returning f u0) nsteps dt n u t w))))
       = files_written (trace w) @ map u_plot [n..<nsteps]"
proof (induction k arbitrary: n u t w)
  case 0
  then show ?case
    by (simp add: savefig_loop.simps [of _ _ _ n])
next
  case (Suc k)
  then have lt: "n < nsteps" and k: "nsteps - Suc n = k" by simp_all
  have upt: "[n..<nsteps] = n # [Suc n..<nsteps]"
    using lt by (simp add: upt_conv_Cons)
  show ?case
    using lt upt Suc.IH [OF k]
    by (simp add: savefig_loop.simps [of _ _ _ n] Let_def u_plot_def)
qed

lemma time_steps_returning:
  "nsteps - ii = k \<Longrightarrow>
   fst (time_steps (returning f u0) nsteps dt ii nph Dcr t w) = Inr ()
   \<and> solver_calls (trace (snd (snd (time_steps (returning f u0) nsteps dt ii nph Dcr t w))))
       = solver_calls (trace w) @ [ii..<nsteps]
   \<and> plots (trace (snd (snd (time_steps (returning f u0) nsteps dt ii nph Dcr t w))))
       = plots (trace w) @ filter (\<lambda>m. m mod nip_fn06d = 0) [ii..<nsteps]
   \<and> files_written (trace (snd (snd (time_steps (returning f u0) nsteps dt ii nph Dcr t w))))
       = files_written (trace w)"
proof (induction k arbitrary: ii nph t w)
  case 0
  then show ?case
    by (simp add: time_steps.simps [of _ _ _ ii])
next
  case (Suc k)
  then have lt: "ii < nsteps" and k: "nsteps - Suc ii = k" by simp_all
  have upt: "[ii..<nsteps] = ii # [Suc ii..<nsteps]"
    using lt by (simp add: upt_conv_Cons)
  show ?case
    using lt upt Suc.IH [OF k]
    by (simp add: time_steps.simps [of _ _ _ ii] Let_def)
qed

lemma for_u_in_after_next:
  "for_u_in nxt n_rows n_cols idx g w = after_next nxt n_rows n_cols idx (nxt g w)"
  by (subst for_u_in.simps) (simp add: after_next_def)

lemma evolve_next_fn06d_simps:
  "evolve_next_fn06d lib nsteps dt Fresh w = evolve_loop_fn06d lib nsteps dt 0 (Function_V lib) 0 w"
  "evolve_next_fn06d lib nsteps dt (AtYield ii nph t) w
     = evolve_loop_fn06d lib nsteps dt (Suc ii) nph t (emit (Assign ii) (w\<lparr>nph_j := nph\<rparr>))"
  "evolve_next_fn06d lib nsteps dt AtFinalYield w = (Inl StopIteration, Exhausted, w)"
  "evolve_next_fn06d lib nsteps dt Exhausted w = (Inl StopIteration, Exhausted, w)"
  by (simp_all add: evolve_next_fn06d_def)

lemma after_evolve_loop_fn06d:
  "0 < nsteps \<Longrightarrow> nsteps - ii = k \<Longrightarrow> ii \<le> nsteps \<Longrightarrow>
   \<exists>r. after_next (evolve_next_fn06d (returning f u0) nsteps dt) n_rows n_cols idx
         (evolve_loop_fn06d (returning f u0) nsteps dt ii nph t w) = Some r
     \<and> fst r = Inr (idx + int (length (filter (\<lambda>m. m mod nip_fn06d = 0) [ii..<nsteps] @ final_yield nsteps)))
     \<and> fst (snd r) = Exhausted
     \<and> solver_calls (trace (snd (snd r))) = solver_calls (trace w) @ [ii..<nsteps]
     \<and> plots (trace (snd (snd r)))
         = plots (trace w) @ filter (\<lambda>m. m mod nip_fn06d = 0) [ii..<nsteps] @ final_yield nsteps
     \<and> files_written (trace (snd (snd r))) = files_written (trace w)"
proof (induction k arbitrary: ii nph t w idx)
  case 0
  then have ii: "ii = nsteps" by simp
  show ?case
    using 0 ii
    by (simp add: evolve_loop_fn06d.simps [of _ nsteps _ nsteps] after_next_def final_yield_def
        for_u_in_after_next [of _ _ _ _ AtFinalYield] evolve_next_fn06d_simps)
next
  case (Suc k)
  then have lt: "ii < nsteps" and k: "nsteps - Suc ii = k" and le: "Suc ii \<le> nsteps" by simp_all
  have upt: "[ii..<nsteps] = ii # [Suc ii..<nsteps]"
    using lt by (simp add: upt_conv_Cons)
  show ?case
  proof (cases "ii mod nip_fn06d = 0")
    case True
    let ?nph = "f (nph_j w, Dcr_j w)"
    let ?w = "emit (Assign ii)
               ((emit (Plot ii) (emit (Subplot n_rows n_cols (idx + 1)) (emit (Solve ii) w)))
                  \<lparr>nph_j := ?nph\<rparr>)"
    show ?thesis
      using lt upt True Suc.IH [OF Suc.prems(1) k le, of "idx + 1" ?nph "t + dt" ?w]
      by (simp add: evolve_loop_fn06d.simps [of _ _ _ ii] Let_def after_next_def [of _ _ _ idx]
          for_u_in_after_next [of _ _ _ _ "AtYield ii ?nph (t + dt)"]
          evolve_next_fn06d_simps add.assoc)
  next
    case False
    let ?nph = "f (nph_j w, Dcr_j w)"
    let ?w = "emit (Assign ii) ((emit (Solve ii) w)\<lparr>nph_j := ?nph\<rparr>)"
    show ?thesis
      using lt upt False Suc.IH [OF Suc.prems(1) k le, of idx ?nph "t + dt" ?w]
      by (simp add: evolve_loop_fn06d.simps [of _ _ _ ii] Let_def)
  qed
qed

text \<open>
  The time loops with any libraries: a loop ends with the exception of the first call
  that raises, at that call, and returns normally when none raises.
\<close>

lemma savefig_loop_run:
  "nsteps - n = k \<Longrightarrow>
   savefig_loop lib nsteps dt n u t w = (r, vars, w') \<Longrightarrow>
   (case run_steps (save_step lib) nsteps n (u_n w) of
      Inr v \<Rightarrow>
        r = Inr () \<and> u_n w' = v
        \<and> solver_calls (trace w') = solver_calls (trace w) @ [n..<nsteps]
        \<and> files_written (trace w') = files_written (trace w) @ map u_plot [n..<nsteps]
    | Inl (m, msg) \<Rightarrow>
        r = Inl (LibraryError msg) \<and> n \<le> m \<and> m < nsteps
        \<and> solver_calls (trace w') = solver_calls (trace w) @ [n..<Suc m]
        \<and> files_written (trace w') = files_written (trace w) @ map u_plot [n..<m]
        \<and> (last (trace w') = Solve m \<or> last (trace w') = Plot m))"
proof (induction k arbitrary: n u t w)
  case 0
  then show ?case
    by (simp add: savefig_loop.simps [of _ _ _ n])
next
  case (Suc k)
  then have lt: "n < nsteps" and k: "nsteps - Suc n = k" by simp_all
  have upt: "[n..<nsteps] = n # [Suc n..<nsteps]"
    using lt by (simp add: upt_conv_Cons)
  show ?case
  proof (cases "solve lib (u_n w)")
    case (Inl msg)
    with lt Suc.prems(2) show ?thesis
      by (auto simp: savefig_loop.simps [of _ _ _ n] Let_def run_steps_step save_step_def)
  next
    case solved: (Inr u1)
    show ?thesis
    proof (cases "savefig lib (u_plot n)")
      case (Inl msg)
      with lt solved Suc.prems(2) show ?thesis
        by (auto simp: savefig_loop.simps [of _ _ _ n] Let_def run_steps_step save_step_def
            u_plot_def)
    next
      case (Inr x)
      let ?w = "emit (Assign n) ((emit (SaveFig (u_plot n)) (emit (Plot n) (emit (Solve n) w)))
                  \<lparr>u_n := u1\<rparr>)"
      have rec: "savefig_loop lib nsteps dt (Suc n) u1 (t + dt) ?w = (r, vars, w')"
        using lt solved Inr Suc.prems(2)
        by (simp add: savefig_loop.simps [of _ _ _ n] Let_def u_plot_def)
      have rs: "run_steps (save_step lib) nsteps n (u_n w)
                  = run_steps (save_step lib) nsteps (Suc n) (u_n ?w)"
        using lt solved Inr by (simp add: run_steps_step save_step_def)
      have less: "[n..<Suc m] = n # [Suc n..<Suc m]" "[n..<m] = n # [Suc n..<m]"
        if "Suc n \<le> m" for m
        using that by (simp_all add: upt_conv_Cons)
      show ?thesis
        using Suc.IH [OF k rec] upt less
        by (auto simp: rs split: sum.splits)
    qed
  qed
qed

lemma time_steps_run:
  "nsteps - ii = k \<Longrightarrow> Dcr_j w = Dcr \<Longrightarrow>
   time_steps lib nsteps dt ii nph Dcr t w = (r, vars, w') \<Longrightarrow>
   Dcr_j w' = Dcr \<and> files_written (trace w') = files_written (trace w) \<and>
   (case run_steps (\<lambda>n v. solve lib (v, Dcr)) nsteps ii (nph_j w) of
      Inr v \<Rightarrow>
        r = Inr () \<and> nph_j w' = v
        \<and> solver_calls (trace w') = solver_calls (trace w) @ [ii..<nsteps]
    | Inl (m, msg) \<Rightarrow>
        r = Inl (LibraryError msg) \<and> ii \<le> m \<and> m < nsteps
        \<and> solver_calls (trace w') = solver_calls (trace w) @ [ii..<Suc m]
        \<and> last (trace w') = Solve m)"
proof (induction k arbitrary: ii nph t w)
  case 0
  then show ?case
    by (simp add: time_steps.simps [of _ _ _ ii])
next
  case (Suc k)
  then have lt: "ii < nsteps" and k: "nsteps - Suc ii = k" by simp_all
  have upt: "[ii..<nsteps] = ii # [Suc ii..<nsteps]"
    using lt by (simp add: upt_conv_Cons)
  show ?case
  proof (cases "solve lib (nph_j w, Dcr)")
    case (Inl msg)
    with lt Suc.prems(2,3) show ?thesis
      by (auto simp: time_steps.simps [of _ _ _ ii] Let_def run_steps_step)
  next
    case (Inr nph1)
    let ?w2 = "if ii mod nip_fn06d = 0 then emit (Plot ii) (emit (Solve ii) w)
               else emit (Solve ii) w"
    let ?w = "emit (Assign ii) ((emit (Assign ii) (?w2\<lparr>nph_j := nph1\<rparr>))\<lparr>Dcr_j := Dcr\<rparr>)"
    have rec: "time_steps lib nsteps dt (Suc ii) nph1 Dcr (t + dt) ?w = (r, vars, w')"
      using lt Inr Suc.prems(2,3) by (simp add: time_steps.simps [of _ _ _ ii] Let_def)
    have D: "Dcr_j ?w = Dcr" by simp
    have rs: "run_steps (\<lambda>n v. solve lib (v, Dcr)) nsteps ii (nph_j w)
                = run_steps (\<lambda>n v. solve lib (v, Dcr)) nsteps (Suc ii) (nph_j ?w)"
      using lt Inr by (simp add: run_steps_step)
    have less: "[ii..<Suc m] = ii # [Suc ii..<Suc m]" if "Suc ii \<le> m" for m
      using that by (simp add: upt_conv_Cons)
    show ?thesis
      using Suc.IH [OF k D rec] upt less
      by (auto simp: rs split: sum.splits)
  qed
qed

lemma after_evolve_loop_fn06d_run:
  "0 < nsteps \<Longrightarrow> nsteps - ii = k \<Longrightarrow> ii \<le> nsteps \<Longrightarrow>
   \<exists>r. after_next (evolve_next_fn06d lib nsteps dt) n_rows n_cols idx
         (evolve_loop_fn06d lib nsteps dt ii nph t w) = Some r
     \<and> fst (snd r) = Exhausted
     \<and> Dcr_j (snd (snd r)) = Dcr_j w
     \<and> files_written (trace (snd (snd r))) = files_written (trace w)
     \<and> (case run_steps (\<lambda>n v. solve lib (v, Dcr_j w)) nsteps ii (nph_j w) of
          Inr v \<Rightarrow>
            fst r = Inr (idx + int (length (filter (\<lambda>m. m mod nip_fn06d = 0) [ii..<nsteps]
                                            @ final_yield nsteps)))
            \<and> nph_j (snd (snd r)) = v
            \<and> solver_calls (trace (snd (snd r))) = solver_calls (trace w) @ [ii..<nsteps]
        | Inl (m, msg) \<Rightarrow>
            fst r = Inl (LibraryError msg) \<and> ii \<le> m \<and> m < nsteps
            \<and> solver_calls (trace (snd (snd r))) = solver_calls (trace w) @ [ii..<Suc m]
            \<and> last (trace (snd (snd r))) = Solve m)"
proof (induction k arbitrary: ii nph t w idx)
  case 0
  then have ii: "ii = nsteps" by simp
  show ?case
    using 0 ii
    by (simp add: evolve_loop_fn06d.simps [of _ nsteps _ nsteps] after_next_def final_yield_def
        for_u_in_after_next [of _ _ _ _ AtFinalYield] evolve_next_fn06d_simps)
next
  case (Suc k)
  then have lt: "ii < nsteps" and k: "nsteps - Suc ii = k" and le: "Suc ii \<le> nsteps" by simp_all
  have upt: "[ii..<nsteps] = ii # [Suc ii..<nsteps]"
    using lt by (simp add: upt_conv_Cons)
  have less: "[ii..<Suc m] = ii # [Suc ii..<Suc m]" if "Suc ii \<le> m" for m
    using that by (simp add: upt_conv_Cons)
  show ?case
  proof (cases "solve lib (nph_j w, Dcr_j w)")
    case (Inl msg)
    with lt show ?thesis
      by (simp add: evolve_loop_fn06d.simps [of _ _ _ ii] Let_def after_next_def run_steps_step)
  next
    case (Inr nph1)
    have rs: "run_steps (\<lambda>n v. solve lib (v, Dcr_j w)) nsteps ii (nph_j w)
                = run_steps (\<lambda>n v. solve lib (v, Dcr_j w)) nsteps (Suc ii) nph1"
      using lt Inr by (simp add: run_steps_step)
    show ?thesis
    proof (cases "ii mod nip_fn06d = 0")
      case True
      let ?w = "emit (Assign ii)
                 ((emit (Plot ii) (emit (Subplot n_rows n_cols (idx + 1)) (emit (Solve ii) w)))
                    \<lparr>nph_j := nph1\<rparr>)"
      obtain r where r:
        "after_next (evolve_next_fn06d lib nsteps dt) n_rows n_cols (idx + 1)
           (evolve_loop_fn06d lib nsteps dt (Suc ii) nph1 (t + dt) ?w) = Some r"
        "fst (snd r) = Exhausted"
        "Dcr_j (snd (snd r)) = Dcr_j ?w"
        "files_written (trace (snd (snd r))) = files_written (trace ?w)"
        "case run_steps (\<lambda>n v. solve lib (v, Dcr_j ?w)) nsteps (Suc ii) (nph_j ?w) of
           Inr v \<Rightarrow>
             fst r = Inr (idx + 1 + int (length (filter (\<lambda>m. m mod nip_fn06d = 0) [Suc ii..<nsteps]
                                                 @ final_yield nsteps)))
             \<and> nph_j (snd (snd r)) = v
             \<and> solver_calls (trace (snd (snd r))) = solver_calls (trace ?w) @ [Suc ii..<nsteps]
         | Inl (m, msg) \<Rightarrow>
             fst r = Inl (LibraryError msg) \<and> Suc ii \<le> m \<and> m < nsteps
             \<and> solver_calls (trace (snd (snd r))) = solver_calls (trace ?w) @ [Suc ii..<Suc m]
             \<and> last (trace (snd (snd r))) = Solve m"
        using Suc.IH [OF Suc.prems(1) k le, of "idx + 1" nph1 "t + dt" ?w] by blast
      have run: "after_next (evolve_next_fn06d lib nsteps dt) n_rows n_cols idx
                   (evolve_loop_fn06d lib nsteps dt ii nph t w) = Some r"
        using lt Inr True r(1)
        by (simp add: evolve_loop_fn06d.simps [of _ _ _ ii] Let_def after_next_def [of _ _ _ idx]
            for_u_in_after_next [of _ _ _ _ "AtYield ii nph1 (t + dt)"]
            evolve_next_fn06d_simps)
      show ?thesis
        using run r(2-5) upt less True
        by (auto simp: rs split: sum.splits)
    next
      case False
      let ?w = "emit (Assign ii) ((emit (Solve ii) w)\<lparr>nph_j := nph1\<rparr>)"
      obtain r where r:
        "after_next (evolve_next_fn06d lib nsteps dt) n_rows n_cols idx
           (evolve_loop_fn06d lib nsteps dt (Suc ii) nph1 (t + dt) ?w) = Some r"
        "fst (snd r) = Exhausted"
        "Dcr_j (snd (snd r)) = Dcr_j ?w"
        "files_written (trace (snd (snd r))) = files_written (trace ?w)"
        "case run_steps (\<lambda>n v. solve lib (v, Dcr_j ?w)) nsteps (Suc ii) (nph_j ?w) of
           Inr v \<Rightarrow>
             fst r = Inr (idx + int (length (filter (\<lambda>m. m mod nip_fn06d = 0) [Suc ii..<nsteps]
                                             @ final_yield nsteps)))
             \<and> nph_j (snd (snd r)) = v
             \<and> solver_calls (trace (snd (snd r))) = solver_calls (trace ?w) @ [Suc ii..<nsteps]
         | Inl (m, msg) \<Rightarrow>
             fst r = Inl (LibraryError msg) \<and> Suc ii \<le> m \<and> m < nsteps
             \<and> solver_calls (trace (snd (snd r))) = solver_calls (trace ?w) @ [Suc ii..<Suc m]
             \<and> last (trace (snd (snd r))) = Solve m"
        using Suc.IH [OF Suc.prems(1) k le, of idx nph1 "t + dt" ?w] by blast
      have run: "after_next (evolve_next_fn06d lib nsteps dt) n_rows n_cols idx
                   (evolve_loop_fn06d lib nsteps dt ii nph t w) = Some r"
        using lt Inr False r(1)
        by (simp add: evolve_loop_fn06d.simps [of _ _ _ ii] Let_def)
      show ?thesis
        using run r(2-5) upt less False
        by (auto simp: rs split: sum.splits)
    qed
  qed
qed
section \<open>Properties of the cavity notebook\<close>

lemma cavity_pass_Inr:
  assumes "cavity_inv s"
  shows "\<exists>s'. cavity_pass P i s = Inr s'
     \<and> cavitywfrList s' = cavitywfrList s @ [length (heap s), length (heap s) + 1,
                                              length (heap s) + 2, length (heap s) + 3]
     \<and> heap s' = heap s @
           [P propagateRight (heap s ! last (cavitywfrList s)),
            P propagateDrift (P propagateRight (heap s ! last (cavitywfrList s))),
            P propagateLeft (P propagateDrift (P propagateRight (heap s ! last (cavitywfrList s)))),
            P propagateDrift (P propagateLeft (P propagateDrift
               (P propagateRight (heap s ! last (cavitywfrList s)))))]
     \<and> length (heap s') = length (heap s) + 4
     \<and> take (length (heap s)) (heap s') = heap s
     \<and> propag_calls (trace s') = propag_calls (trace s) @ pass_calls i
     \<and> files_written (trace s') = files_written (trace s)
     \<and> plots (trace s') = plots (trace s)
     \<and> cavity_inv s'"
  using assms
  by (simp add: cavity_pass_def cavity_inv_def deepcopy_def propag_def append_wfr_def Let_def
      emit_def pass_calls_def list_all_iff list_update_append nth_append)
     (auto simp: numeral_eq_Suc)


lemma cavity_loop_Inr:
  "cavity_inv s \<Longrightarrow> n - i = k \<Longrightarrow>
   \<exists>s'. cavity_loop P n i s = Inr s'
     \<and> length (cavitywfrList s') = length (cavitywfrList s) + 4 * (n - i)
     \<and> take (length (cavitywfrList s)) (cavitywfrList s') = cavitywfrList s
     \<and> take (length (heap s)) (heap s') = heap s
     \<and> length (heap s) \<le> length (heap s')
     \<and> propag_calls (trace s') = propag_calls (trace s) @ concat (map pass_calls [i..<n])
     \<and> files_written (trace s') = files_written (trace s)
     \<and> plots (trace s') = plots (trace s)
     \<and> cavity_inv s'"
proof (induction k arbitrary: i s)
  case 0
  then show ?case by (simp add: cavity_loop.simps [of _ n i])
next
  case (Suc k)
  then have lt: "i < n" and k: "n - Suc i = k" by simp_all
  have upt: "[i..<n] = i # [Suc i..<n]"
    using lt by (simp add: upt_conv_Cons)
  obtain s1 where p: "cavity_pass P i s = Inr s1"
    and l1: "cavitywfrList s1 = cavitywfrList s @ [length (heap s), length (heap s) + 1,
                                                   length (heap s) + 2, length (heap s) + 3]"
    and h1: "length (heap s1) = length (heap s) + 4"
    and t1: "take (length (heap s)) (heap s1) = heap s"
    and c1: "propag_calls (trace s1) = propag_calls (trace s) @ pass_calls i"
    and f1: "files_written (trace s1) = files_written (trace s)"
    and p1: "plots (trace s1) = plots (trace s)"
    and i1: "cavity_inv s1"
    using cavity_pass_Inr [OF Suc.prems(1), of P i] by blast
  obtain s' where r: "cavity_loop P n (Suc i) s1 = Inr s'"
    and l': "length (cavitywfrList s') = length (cavitywfrList s1) + 4 * (n - Suc i)"
    and tl': "take (length (cavitywfrList s1)) (cavitywfrList s') = cavitywfrList s1"
    and th': "take (length (heap s1)) (heap s') = heap s1"
    and le': "length (heap s1) \<le> length (heap s')"
    and c': "propag_calls (trace s') = propag_calls (trace s1) @ concat (map pass_calls [Suc i..<n])"
    and f': "files_written (trace s') = files_written (trace s1)"
    and p': "plots (trace s') = plots (trace s1)"
    and i': "cavity_inv s'"
    using Suc.IH [OF i1 k] by blast
  have "take (length (cavitywfrList s)) (cavitywfrList s') = cavitywfrList s"
  proof -
    have "take (length (cavitywfrList s)) (take (length (cavitywfrList s1)) (cavitywfrList s'))
            = cavitywfrList s"
      unfolding tl' by (simp add: l1)
    then show ?thesis by (simp add: l1 min_def)
  qed
  moreover have "take (length (heap s)) (heap s') = heap s"
  proof -
    have "take (length (heap s)) (take (length (heap s1)) (heap s')) = heap s"
      unfolding th' by (rule t1)
    then show ?thesis by (simp add: h1 min_def)
  qed
  ultimately show ?case
    using lt p r l' l1 h1 le' c' c1 f' f1 p' p1 i' upt
    by (simp add: cavity_loop.simps [of _ n i])
qed

lemma cavity_loop_Suc:
  "i \<le> n \<Longrightarrow> n - i = k \<Longrightarrow>
   cavity_loop P (Suc n) i s
     = (case cavity_loop P n i s of Inl e \<Rightarrow> Inl e | Inr s' \<Rightarrow> cavity_pass P n s')"
proof (induction k arbitrary: i s)
  case 0
  then have "i = n" by simp
  then show ?case
    by (simp add: cavity_loop.simps [of _ "Suc n" n] cavity_loop.simps [of _ "Suc n" "Suc n"]
        cavity_loop.simps [of _ n n] split: sum.splits)
next
  case (Suc k)
  then have lt: "i < n" and k: "n - Suc i = k" and le: "Suc i \<le> n" by simp_all
  show ?case
    using lt Suc.IH [OF le k]
    by (simp add: cavity_loop.simps [of _ "Suc n" i] cavity_loop.simps [of _ n i]
        split: sum.splits)
qed

lemma cavity_inv_init: "cavity_inv (cavity_init wfrCenter0)"
  by (simp add: cavity_inv_def cavity_init_def)

lemma cavity_pass_frame:
  assumes inv: "cavity_inv s" and k: "k < length (cavitywfrList s)"
  shows "\<exists>s'. cavity_pass P j s = Inr s'
           \<and> cavitywfrList s' ! k = cavitywfrList s ! k
           \<and> heap s' ! (cavitywfrList s ! k) = heap s ! (cavitywfrList s ! k)"
proof -
  obtain s' where p: "cavity_pass P j s = Inr s'"
    and l: "cavitywfrList s' = cavitywfrList s @ [length (heap s), length (heap s) + 1,
                                                  length (heap s) + 2, length (heap s) + 3]"
    and t: "take (length (heap s)) (heap s') = heap s"
    using cavity_pass_Inr [OF inv, where P = P and i = j] by blast
  have a: "cavitywfrList s ! k < length (heap s)"
    using inv k by (simp add: cavity_inv_def list_all_length)
  have "heap s' ! (cavitywfrList s ! k) = take (length (heap s)) (heap s') ! (cavitywfrList s ! k)"
    using a by simp
  then have "heap s' ! (cavitywfrList s ! k) = heap s ! (cavitywfrList s ! k)"
    by (simp add: t)
  moreover have "cavitywfrList s' ! k = cavitywfrList s ! k"
    using k by (simp add: l nth_append)
  ultimately show ?thesis using p by blast
qed



text \<open>The listed wavefronts are the objects of the heap, each listed once.\<close>

lemma four_more: "[0..<n + 4] = [0..<n] @ [n, n + 1, n + 2, n + 3]"
proof -
  have "[0..<n + 4] = [0..<n] @ [n..<n + 4]"
    using upt_add_eq_append [of 0 n 4] by simp
  moreover have "[n..<n + 4] = [n, n + 1, n + 2, n + 3]"
    by (simp add: upt_conv_Cons numeral_eq_Suc)
  ultimately show ?thesis by simp
qed

lemma cavity_loop_addresses:
  "cavity_inv s \<Longrightarrow> cavitywfrList s = [0..<length (heap s)] \<Longrightarrow> n - i = k \<Longrightarrow>
   \<exists>s'. cavity_loop P n i s = Inr s' \<and> cavitywfrList s' = [0..<length (heap s')]"
proof (induction k arbitrary: i s)
  case 0
  then show ?case by (simp add: cavity_loop.simps [of _ n i])
next
  case (Suc k)
  then have lt: "i < n" and k: "n - Suc i = k" by simp_all
  obtain s1 where p: "cavity_pass P i s = Inr s1"
    and l1: "cavitywfrList s1 = cavitywfrList s @ [length (heap s), length (heap s) + 1,
                                                   length (heap s) + 2, length (heap s) + 3]"
    and h1: "length (heap s1) = length (heap s) + 4"
    and i1: "cavity_inv s1"
    using cavity_pass_Inr [OF Suc.prems(1), of P i] by blast
  have a1: "cavitywfrList s1 = [0..<length (heap s1)]"
    by (simp only: l1 h1 Suc.prems(2) four_more)
  show ?case
    using lt p Suc.IH [OF i1 a1 k]
    by (simp add: cavity_loop.simps [of _ n i])
qed

text \<open>
  Pass \<open>j\<close> of the cell: the state before it, the state after it, and what the pass
  has done. The heap is only extended, by four new objects: the copy of the last listed
  wavefront propagated to the right mirror, the copy of that one propagated through the
  drift, the copy of that one propagated to the left mirror, and the copy of that one
  propagated through the drift.
\<close>

lemma cavity_passes:
  "\<exists>s_j s_j'.
       cavity_loop P j 0 (cavity_init wfrCenter0) = Inr s_j
     \<and> cavity_pass P j s_j = Inr s_j'
     \<and> cavity_loop P (Suc j) 0 (cavity_init wfrCenter0) = Inr s_j'
     \<and> cavity_inv s_j
     \<and> cavitywfrList s_j' = cavitywfrList s_j @ [length (heap s_j), length (heap s_j) + 1,
                                                  length (heap s_j) + 2, length (heap s_j) + 3]
     \<and> heap s_j' = heap s_j @
           [P propagateRight (heap s_j ! last (cavitywfrList s_j)),
            P propagateDrift (P propagateRight (heap s_j ! last (cavitywfrList s_j))),
            P propagateLeft (P propagateDrift
               (P propagateRight (heap s_j ! last (cavitywfrList s_j)))),
            P propagateDrift (P propagateLeft (P propagateDrift
               (P propagateRight (heap s_j ! last (cavitywfrList s_j)))))]
     \<and> (\<forall>k<length (cavitywfrList s_j).
            cavitywfrList s_j' ! k = cavitywfrList s_j ! k
          \<and> heap s_j' ! (cavitywfrList s_j ! k) = heap s_j ! (cavitywfrList s_j ! k))"
proof -
  let ?s0 = "cavity_init wfrCenter0"
  obtain s_j where before: "cavity_loop P j 0 ?s0 = Inr s_j" and inv: "cavity_inv s_j"
    using cavity_loop_Inr [where n = j and i = 0 and P = P, OF cavity_inv_init refl, of wfrCenter0]
    by blast
  obtain s_j' where pass: "cavity_pass P j s_j = Inr s_j'"
    and l: "cavitywfrList s_j' = cavitywfrList s_j @ [length (heap s_j), length (heap s_j) + 1,
                                                       length (heap s_j) + 2, length (heap s_j) + 3]"
    and h: "heap s_j' = heap s_j @
           [P propagateRight (heap s_j ! last (cavitywfrList s_j)),
            P propagateDrift (P propagateRight (heap s_j ! last (cavitywfrList s_j))),
            P propagateLeft (P propagateDrift
               (P propagateRight (heap s_j ! last (cavitywfrList s_j)))),
            P propagateDrift (P propagateLeft (P propagateDrift
               (P propagateRight (heap s_j ! last (cavitywfrList s_j)))))]"
    using cavity_pass_Inr [OF inv, where P = P and i = j] by blast
  have after: "cavity_loop P (Suc j) 0 ?s0 = Inr s_j'"
    using cavity_loop_Suc [where i = 0 and n = j and k = j and P = P and s = ?s0] before pass
    by simp
  have "cavitywfrList s_j' ! k = cavitywfrList s_j ! k
        \<and> heap s_j' ! (cavitywfrList s_j ! k) = heap s_j ! (cavitywfrList s_j ! k)"
    if "k < length (cavitywfrList s_j)" for k
    using cavity_pass_frame [OF inv that, where P = P and j = j] pass by simp
  with before pass after inv l h show ?thesis by blast
qed

text \<open>
  When the propagation returns, the loop that may raise is the loop that returns.
\<close>

lemma cavity_pass_raising_returning:
  "cavity_pass_raising (\<lambda>bl x. Inr (P bl x)) i s = cavity_pass P i s"
  by (simp add: cavity_pass_raising_def cavity_pass_def propag_raising_def propag_def Let_def
      split_def)

lemma cavity_loop_raising_returning:
  "n - i = k \<Longrightarrow> cavity_loop_raising (\<lambda>bl x. Inr (P bl x)) n i s = cavity_loop P n i s"
proof (induction k arbitrary: i s)
  case 0
  then show ?case
    by (simp add: cavity_loop_raising.simps [of _ n i] cavity_loop.simps [of _ n i])
next
  case (Suc k)
  then have lt: "i < n" and k: "n - Suc i = k" by simp_all
  show ?case
    using lt Suc.IH [OF k]
    by (simp add: cavity_loop_raising.simps [of _ n i] cavity_loop.simps [of _ n i]
        cavity_pass_raising_returning split: sum.splits)
qed



section \<open>Properties of the analytic gain\<close>

lemma fn1d_emit [simp]:
  "gamma_ts (emit e s) = gamma_ts s" "sigma_ts (emit e s) = sigma_ts s"
  "delta_ts_0 (emit e s) = delta_ts_0 s" "n_ph_0 (emit e s) = n_ph_0 s"
  "c_cm (emit e s) = c_cm s" "tau_pulse (emit e s) = tau_pulse s"
  "eta_pulse (emit e s) = eta_pulse s" "length_ts (emit e s) = length_ts s"
  "epsilon_ts (emit e s) = epsilon_ts s" "g_e_max (emit e s) = g_e_max s"
  "factor_ts (emit e s) = factor_ts s" "factor_max (emit e s) = factor_max s"
  "g_e (emit e s) = g_e s" "delta_ts (emit e s) = delta_ts s" "n_ph (emit e s) = n_ph s"
  by (simp_all add: emit_def)

lemma gain_setup_fields [simp]:
  "gamma_ts (gain_setup s) = gamma_ts s" "sigma_ts (gain_setup s) = sigma_ts s"
  "delta_ts_0 (gain_setup s) = delta_ts_0 s" "n_ph_0 (gain_setup s) = n_ph_0 s"
  "tau_pulse (gain_setup s) = tau_pulse s" "length_ts (gain_setup s) = length_ts s"
  "eta_pulse (gain_setup s) = n_ph_0 s * (100 * scipy_constants_c) * tau_pulse s"
  "epsilon_ts (gain_setup s)
     = gamma_ts s * sigma_ts s * (n_ph_0 s * (100 * scipy_constants_c) * tau_pulse s)"
  "trace (gain_setup s)
     = trace s @ [Print ''  eta_pulse = '' (n_ph_0 s * (100 * scipy_constants_c) * tau_pulse s),
                  Print '' epsilon_ts = ''
                    (gamma_ts s * sigma_ts s * (n_ph_0 s * (100 * scipy_constants_c) * tau_pulse s))]"
  by (simp_all add: gain_setup_def Let_def)

lemma gain_bounds_error:
  "gamma_ts s = 0 \<or> eta_pulse s = 0 \<Longrightarrow> gain_bounds s = (Some ZeroDivisionError, s)"
  by (simp add: gain_bounds_def)

lemma gain_bounds_fields:
  assumes "gamma_ts s \<noteq> 0" and "eta_pulse s \<noteq> 0"
  shows "fst (gain_bounds s) = None"
    and "gamma_ts (snd (gain_bounds s)) = gamma_ts s"
    and "sigma_ts (snd (gain_bounds s)) = sigma_ts s"
    and "delta_ts_0 (snd (gain_bounds s)) = delta_ts_0 s"
    and "n_ph_0 (snd (gain_bounds s)) = n_ph_0 s"
    and "tau_pulse (snd (gain_bounds s)) = tau_pulse s"
    and "length_ts (snd (gain_bounds s)) = length_ts s"
    and "eta_pulse (snd (gain_bounds s)) = eta_pulse s"
    and "epsilon_ts (snd (gain_bounds s)) = epsilon_ts s"
    and "g_e_max (snd (gain_bounds s)) = 1 + delta_ts_0 s * length_ts s / gamma_ts s / eta_pulse s"
    and "factor_ts (snd (gain_bounds s)) = sigma_ts s * delta_ts_0 s * length_ts s"
    and "factor_max (snd (gain_bounds s))
           = ln (1 + delta_ts_0 s * length_ts s / gamma_ts s / eta_pulse s)"
    and "g_e (snd (gain_bounds s)) = 1 + delta_ts_0 s * length_ts s / gamma_ts s / eta_pulse s"
    and "delta_ts (snd (gain_bounds s)) = 0"
    and "trace (snd (gain_bounds s))
           = trace s @ [Print ''  factor_ts = '' (sigma_ts s * delta_ts_0 s * length_ts s),
                        Print '' factor_max = ''
                          (ln (1 + delta_ts_0 s * length_ts s / gamma_ts s / eta_pulse s))]"
  using assms by (simp_all add: gain_bounds_def Let_def)

lemma gain_branch_fields [simp]:
  "gamma_ts (snd (gain_branch s)) = gamma_ts s" "sigma_ts (snd (gain_branch s)) = sigma_ts s"
  "delta_ts_0 (snd (gain_branch s)) = delta_ts_0 s" "n_ph_0 (snd (gain_branch s)) = n_ph_0 s"
  "tau_pulse (snd (gain_branch s)) = tau_pulse s" "length_ts (snd (gain_branch s)) = length_ts s"
  "eta_pulse (snd (gain_branch s)) = eta_pulse s"
  "epsilon_ts (snd (gain_branch s)) = epsilon_ts s"
  "g_e_max (snd (gain_branch s)) = g_e_max s" "factor_ts (snd (gain_branch s)) = factor_ts s"
  "factor_max (snd (gain_branch s)) = factor_max s"
  "trace (snd (gain_branch s)) = trace s"
  by (simp_all add: gain_branch_def Let_def)

lemma gain_branch_result:
  "fst (gain_branch s)
     = (if factor_ts s < factor_max s \<and> length_ts s = 0 then Some ZeroDivisionError else None)"
  "g_e (snd (gain_branch s))
     = (if factor_ts s < factor_max s then gain_formula (factor_ts s) (epsilon_ts s) else g_e s)"
  "delta_ts (snd (gain_branch s))
     = (if factor_ts s < factor_max s \<and> length_ts s \<noteq> 0
        then inversion_formula (delta_ts_0 s) (gamma_ts s) (eta_pulse s) (length_ts s)
               (gain_formula (factor_ts s) (epsilon_ts s))
        else delta_ts s)"
  by (simp_all add: gain_branch_def Let_def)

lemma gain_report_fields [simp]:
  "gamma_ts (gain_report s) = gamma_ts s" "sigma_ts (gain_report s) = sigma_ts s"
  "delta_ts_0 (gain_report s) = delta_ts_0 s" "n_ph_0 (gain_report s) = n_ph_0 s"
  "tau_pulse (gain_report s) = tau_pulse s" "length_ts (gain_report s) = length_ts s"
  "eta_pulse (gain_report s) = eta_pulse s" "epsilon_ts (gain_report s) = epsilon_ts s"
  "g_e_max (gain_report s) = g_e_max s" "factor_ts (gain_report s) = factor_ts s"
  "factor_max (gain_report s) = factor_max s" "g_e (gain_report s) = g_e s"
  "delta_ts (gain_report s) = delta_ts s" "n_ph (gain_report s) = g_e s * n_ph_0 s"
  "trace (gain_report s)
     = trace s @ [Print ''delta_ts_0 = '' (delta_ts_0 s), Print ''  delta_ts = '' (delta_ts s),
                  Print ''    n_ph_0 = '' (n_ph_0 s), Print ''       g_e = '' (g_e s),
                  Print ''      n_ph = '' (g_e s * n_ph_0 s)]"
  by (simp_all add: gain_report_def Let_def)

lemma analytic_gain_unfold:
  "analytic_gain s =
     (if gamma_ts s = 0 \<or> eta_pulse (gain_setup s) = 0 then (Some ZeroDivisionError, gain_setup s)
      else if fst (gain_branch (snd (gain_bounds (gain_setup s)))) \<noteq> None
      then gain_branch (snd (gain_bounds (gain_setup s)))
      else (None, gain_report (snd (gain_branch (snd (gain_bounds (gain_setup s)))))))"
proof (cases "gamma_ts s = 0 \<or> eta_pulse (gain_setup s) = 0")
  case True
  then have "gain_bounds (gain_setup s) = (Some ZeroDivisionError, gain_setup s)"
    by (intro gain_bounds_error) simp
  with True show ?thesis by (simp add: analytic_gain_def)
next
  case False
  then have "fst (gain_bounds (gain_setup s)) = None"
    by (intro gain_bounds_fields) simp_all
  then obtain s1 where b: "gain_bounds (gain_setup s) = (None, s1)"
    by (cases "gain_bounds (gain_setup s)") auto
  obtain r s2 where br: "gain_branch s1 = (r, s2)"
    by (cases "gain_branch s1") auto
  show ?thesis
    using False b br by (cases r) (simp_all add: analytic_gain_def)
qed











lemma notebook_parameters:
  "gamma_ts (gain_input (cell_initial s)) = 2"
  "sigma_ts (gain_input (cell_initial s)) = 15 / 10 ^ 20"
  "delta_ts_0 (gain_input (cell_initial s)) = 10 ^ 21"
  "n_ph_0 (gain_input (cell_initial s)) = 10 ^ 11"
  "tau_pulse (gain_input (cell_initial s)) = 1 / 10 ^ 9"
  "length_ts (gain_input (cell_initial s)) = 1"
  by (simp_all add: gain_input_def cell_initial_def Let_def)


lemma exp_150_lower: "(16::real) ^ 10 \<le> exp 150"
proof -
  have "(16::real) \<le> exp 15"
    using exp_ge_add_one_self [of "15::real"] by simp
  then have "(16::real) ^ 10 \<le> exp 15 ^ 10"
    by (intro power_mono) simp_all
  also have "exp (15::real) ^ 10 = exp (of_nat 10 * 15)"
    by (simp only: exp_of_nat_mult)
  finally show ?thesis by simp
qed

lemma notebook_guard: "ln (1 + 10 ^ 21 / 2 / 2997924580000) \<le> (150::real)"
proof -
  have "(1 + 10 ^ 21 / 2 / 2997924580000 :: real) \<le> 16 ^ 10" by simp
  then have "(1 + 10 ^ 21 / 2 / 2997924580000 :: real) \<le> exp 150"
    using exp_150_lower by linarith
  then have "ln (1 + 10 ^ 21 / 2 / 2997924580000 :: real) \<le> ln (exp 150)"
    by (subst ln_le_cancel_iff) simp_all
  then show ?thesis by simp
qed


section \<open>Properties of the array loops\<close>

lemma data_loop_closed_form:
  "n - i = k \<Longrightarrow> i \<le> n \<Longrightarrow> n \<le> length t_data \<Longrightarrow> n \<le> length z_data \<Longrightarrow>
   data_loop n i t_data z_data
     = Inr (take i t_data @ map (\<lambda>j. time_0 + real j * dt_amp) [i..<n] @ drop n t_data,
            take i z_data @ map (\<lambda>j. real j * dz) [i..<n] @ drop n z_data)"
proof (induction k arbitrary: i t_data z_data)
  case 0
  then have "i = n" by simp
  then show ?case by (simp add: data_loop.simps [of n n])
next
  case (Suc k)
  then have lt: "i < n" and k: "n - Suc i = k" and le: "Suc i \<le> n" by simp_all
  have upt: "[i..<n] = i # [Suc i..<n]"
    using lt by (simp add: upt_conv_Cons)
  have it: "i < length t_data" and iz: "i < length z_data"
    using lt Suc.prems by simp_all
  let ?t = "t_data[i := time_0 + real i * dt_amp]"
  let ?z = "z_data[i := real i * dz]"
  have IH: "data_loop n (Suc i) ?t ?z
     = Inr (take (Suc i) ?t @ map (\<lambda>j. time_0 + real j * dt_amp) [Suc i..<n] @ drop n ?t,
            take (Suc i) ?z @ map (\<lambda>j. real j * dz) [Suc i..<n] @ drop n ?z)"
    using Suc.IH [OF k le, of ?t ?z] Suc.prems by simp
  have "take (Suc i) ?t = take i t_data @ [time_0 + real i * dt_amp]"
    using it by (simp add: take_Suc_conv_app_nth)
  moreover have "take (Suc i) ?z = take i z_data @ [real i * dz]"
    using iz by (simp add: take_Suc_conv_app_nth)
  moreover have "drop n ?t = drop n t_data" "drop n ?z = drop n z_data"
    using lt by simp_all
  ultimately show ?case
    using lt it iz IH upt by (simp add: data_loop.simps [of n i] setitem_def)
qed

lemma cell_data_closed_form:
  "cell_data = Inr (map (\<lambda>j. time_0 + real j * dt_amp) [0..<num_points_amp],
                    map (\<lambda>j. real j * dz) [0..<num_points_amp])"
  by (simp add: cell_data_def zeros_def
      data_loop_closed_form [where k = num_points_amp and i = 0])

lemma retarded_time_value:
  assumes "j < num_points_amp"
  shows "retarded_time (map (\<lambda>j. time_0 + real j * dt_amp) [0..<num_points_amp])
           (map (\<lambda>j. real j * dz) [0..<num_points_amp]) j
         = Inr (dt_amp - real j * dz / scipy_constants_c)"
  using assms by (simp add: retarded_time_def getitem_def num_points_amp_def time_0_def)

lemma retarded_time_pos:
  assumes "j < num_points_amp"
  shows "0 < dt_amp - real j * dz / scipy_constants_c"
proof -
  have "real j \<le> 9" using assms by (simp add: num_points_amp_def)
  then have "real j * (1 / 100) \<le> 9 * (1 / 100)"
    by (intro mult_right_mono) simp_all
  then have "real j / 100 < 299792458 / 10 ^ 9" by simp
  then have "real j / 100 / 9 / 299792458 < 1 / 10 ^ 9 / 9"
    by (simp add: field_simps)
  then show ?thesis
    by (simp add: dt_amp_def dz_def time_f_def time_0_def tau_pulse_amp_def length_ts_amp_def
        num_points_amp_def scipy_constants_c_def)
qed

lemma denominator_pos:
  assumes "0 < (x::real)"
  shows "0 < 1 - exp (- gamma_ts_amp * sigma_ts_amp * eta_pulse_amp * x / tau_pulse_amp)"
proof -
  have "0 < gamma_ts_amp * sigma_ts_amp * eta_pulse_amp * x / tau_pulse_amp"
    using assms
    by (simp add: gamma_ts_amp_def sigma_ts_amp_def eta_pulse_amp_def tau_pulse_amp_def
        n_ph_0_amp_def scipy_constants_c_def)
  then have "exp (- (gamma_ts_amp * sigma_ts_amp * eta_pulse_amp * x / tau_pulse_amp)) < 1"
    by simp
  then show ?thesis by simp
qed

lemma n_data_loop_closed_form:
  assumes den: "\<And>j. j < n \<Longrightarrow> denominator t_data z_data j = Inr (D j)"
  shows "n - j = k \<Longrightarrow> j \<le> n \<Longrightarrow> n \<le> length n_data \<Longrightarrow>
   n_data_loop n j t_data z_data n_data
     = Inr (take j n_data @ map (\<lambda>j. n_ph_0_amp / D j) [j..<n] @ drop n n_data)"
proof (induction k arbitrary: j n_data)
  case 0
  then have "j = n" by simp
  then show ?case by (simp add: n_data_loop.simps [of n n])
next
  case (Suc k)
  then have lt: "j < n" and k: "n - Suc j = k" and le: "Suc j \<le> n" by simp_all
  have upt: "[j..<n] = j # [Suc j..<n]"
    using lt by (simp add: upt_conv_Cons)
  have jn: "j < length n_data"
    using lt Suc.prems by simp
  let ?n = "n_data[j := n_ph_0_amp / D j]"
  have IH: "n_data_loop n (Suc j) t_data z_data ?n
     = Inr (take (Suc j) ?n @ map (\<lambda>j. n_ph_0_amp / D j) [Suc j..<n] @ drop n ?n)"
    using Suc.IH [OF k le, of ?n] Suc.prems by simp
  have "take (Suc j) ?n = take j n_data @ [n_ph_0_amp / D j]"
    using jn by (simp add: take_Suc_conv_app_nth)
  moreover have "drop n ?n = drop n n_data"
    using lt by simp
  ultimately show ?case
    using lt jn IH upt den [OF lt] by (simp add: n_data_loop.simps [of n j] setitem_def)
qed

lemma profile_loop_closed_form:
  "n - i = k \<Longrightarrow> i \<le> n \<Longrightarrow> n \<le> length d \<Longrightarrow>
   profile_loop s n i d
     = Inr (take i d
            @ map (\<lambda>i. delta_ts_0 s
                         / (1 + exp (sigma_ts s * delta_ts_0 s * (real i * length_ts s / (real n - 1)))
                                * (exp (epsilon_ts s) - 1))) [i..<n]
            @ drop n d)"
proof (induction k arbitrary: i d)
  case 0
  then have "i = n" by simp
  then show ?case by (simp add: profile_loop.simps [of s n n])
next
  case (Suc k)
  then have lt: "i < n" and k: "n - Suc i = k" and le: "Suc i \<le> n" by simp_all
  have upt: "[i..<n] = i # [Suc i..<n]"
    using lt by (simp add: upt_conv_Cons)
  have il: "i < length d"
    using lt Suc.prems by simp
  let ?v = "delta_ts_0 s
              / (1 + exp (sigma_ts s * delta_ts_0 s * (real i * length_ts s / (real n - 1)))
                     * (exp (epsilon_ts s) - 1))"
  let ?d = "d[i := ?v]"
  have IH: "profile_loop s n (Suc i) ?d
     = Inr (take (Suc i) ?d
            @ map (\<lambda>i. delta_ts_0 s
                         / (1 + exp (sigma_ts s * delta_ts_0 s * (real i * length_ts s / (real n - 1)))
                                * (exp (epsilon_ts s) - 1))) [Suc i..<n]
            @ drop n ?d)"
    using Suc.IH [OF k le, of ?d] Suc.prems by simp
  have "take (Suc i) ?d = take i d @ [?v]"
    using il by (simp add: take_Suc_conv_app_nth)
  moreover have "drop n ?d = drop n d"
    using lt by simp
  ultimately show ?case
    using lt il IH upt by (simp add: profile_loop.simps [of s n i] setitem_def Let_def)
qed


section \<open>Properties of the cells\<close>

lemma multiples_in_block:
  assumes k: "0 < (k::nat)"
  shows "filter (\<lambda>m. m mod k = 0) [k * q..<k * q + k] = [k * q]"
proof -
  have split: "[k * q..<k * q + k] = k * q # [Suc (k * q)..<k * q + k]"
    using k by (simp add: upt_conv_Cons)
  have "m mod k \<noteq> 0" if "m \<in> set [Suc (k * q)..<k * q + k]" for m
  proof -
    from that have lo: "k * q < m" and hi: "m < k * q + k" by simp_all
    have "m = k * q + (m - k * q)" using lo by simp
    then have "m mod k = (m - k * q) mod k"
      by (metis mod_mult_self4)
    also have "\<dots> = m - k * q" using hi lo by simp
    finally show ?thesis using lo by simp
  qed
  then have "filter (\<lambda>m. m mod k = 0) [Suc (k * q)..<k * q + k] = []"
    by (simp add: filter_empty_conv)
  then show ?thesis by (simp add: split)
qed

lemma multiples_below:
  assumes k: "0 < (k::nat)"
  shows "filter (\<lambda>m. m mod k = 0) [0..<k * q] = map (\<lambda>i. k * i) [0..<q]"
proof (induction q)
  case 0
  show ?case by simp
next
  case (Suc q)
  have "[0..<k * Suc q] = [0..<k * q] @ [k * q..<k * q + k]"
    using upt_add_eq_append [of 0 "k * q" k] by (simp add: add.commute)
  then show ?case
    using Suc multiples_in_block [OF k, of q] by simp
qed

lemma hundreds_below_800:
  "filter (\<lambda>m. m mod 100 = 0) [0..<800] = [0, 100, 200, 300, 400, 500, 600, 700 :: nat]"
proof -
  have "(800::nat) = 100 * 8" by simp
  then have "filter (\<lambda>m. m mod 100 = 0) [0..<800::nat]
               = filter (\<lambda>m. m mod 100 = 0) [0..<100 * 8]"
    by (simp only:)
  also have "\<dots> = map (\<lambda>i. 100 * i) [0..<8]"
    by (rule multiples_below) simp
  also have "\<dots> = [0, 100, 200, 300, 400, 500, 600, 700]"
    by (simp add: upt_rec)
  finally show ?thesis .
qed


lemma savefig_loop_iterates:
  "nsteps - n = k \<Longrightarrow>
   u_n (snd (snd (savefig_loop (returning f u0) nsteps dt n u t w))) = (f ^^ k) (u_n w)"
proof (induction k arbitrary: n u t w)
  case 0
  then show ?case by (simp add: savefig_loop.simps [of _ _ _ n])
next
  case (Suc k)
  then have lt: "n < nsteps" and k: "nsteps - Suc n = k" by simp_all
  show ?case
    using lt Suc.IH [OF k]
    by (simp add: savefig_loop.simps [of _ _ _ n] Let_def funpow_swap1)
qed

lemma time_steps_iterates:
  "nsteps - ii = k \<Longrightarrow> Dcr_j w = Dcr \<Longrightarrow>
   nph_j (snd (snd (time_steps (returning f u0) nsteps dt ii nph Dcr t w)))
     = ((\<lambda>x. f (x, Dcr)) ^^ k) (nph_j w)
   \<and> Dcr_j (snd (snd (time_steps (returning f u0) nsteps dt ii nph Dcr t w))) = Dcr"
proof (induction k arbitrary: ii nph t w)
  case 0
  then show ?case by (simp add: time_steps.simps [of _ _ _ ii])
next
  case (Suc k)
  then have lt: "ii < nsteps" and k: "nsteps - Suc ii = k" by simp_all
  show ?case
    using lt Suc.IH [OF k] Suc.prems(2) funpow_swap1 [of "\<lambda>x. f (x, Dcr)" k "nph_j w"]
    by (simp add: time_steps.simps [of _ _ _ ii] Let_def)
qed

lemma cell_savefig_returning:
  "fst (cell_savefig (returning f u0) w) = Inr ()
   \<and> solver_calls (trace (snd (snd (cell_savefig (returning f u0) w))))
       = solver_calls (trace w) @ [0..<num_steps]
   \<and> plots (trace (snd (snd (cell_savefig (returning f u0) w))))
       = plots (trace w) @ [0..<num_steps]
   \<and> files_written (trace (snd (snd (cell_savefig (returning f u0) w))))
       = files_written (trace w) @ map u_plot [0..<num_steps]
   \<and> u_n (snd (snd (cell_savefig (returning f u0) w))) = (f ^^ num_steps) (u_n w)"
  using savefig_loop_returning [of num_steps 0 num_steps f u0 dt_xt02 u0 0 w]
    savefig_loop_iterates [of num_steps 0 num_steps f u0 dt_xt02 u0 0 w]
  by (simp add: cell_savefig_def)

lemma cell_execute_returning:
  "fst (cell_execute (returning f u0) w) = Inr ()
   \<and> solver_calls (trace (snd (snd (cell_execute (returning f u0) w))))
       = solver_calls (trace w) @ [0..<n_steps]
   \<and> plots (trace (snd (snd (cell_execute (returning f u0) w))))
       = plots (trace w) @ filter (\<lambda>m. m mod nip_fn06d = 0) [0..<n_steps]
   \<and> files_written (trace (snd (snd (cell_execute (returning f u0) w))))
       = files_written (trace w)
   \<and> nph_j (snd (snd (cell_execute (returning f u0) w)))
       = ((\<lambda>x. f (x, Dcr_j w)) ^^ n_steps) (nph_j w)"
proof -
  let ?w1 = "emit (Title ''population inversion density'') (emit (Figure 13 8) w)"
  let ?r = "time_steps (returning f u0) n_steps dt_fn06d 0 u0 (Dcr_j w) 0 ?w1"
  obtain vars w2 where r: "?r = (Inr (), vars, w2)"
    using time_steps_returning [of n_steps 0 n_steps f u0 dt_fn06d u0 "Dcr_j w" 0 ?w1]
    by (cases ?r) auto
  have t: "solver_calls (trace w2) = solver_calls (trace w) @ [0..<n_steps]"
    "plots (trace w2) = plots (trace w) @ filter (\<lambda>m. m mod nip_fn06d = 0) [0..<n_steps]"
    "files_written (trace w2) = files_written (trace w)"
    using time_steps_returning [of n_steps 0 n_steps f u0 dt_fn06d u0 "Dcr_j w" 0 ?w1] r
    by simp_all
  have i: "nph_j w2 = ((\<lambda>x. f (x, Dcr_j w)) ^^ n_steps) (nph_j w)"
    using time_steps_iterates [of n_steps 0 n_steps ?w1 "Dcr_j w" f u0 dt_fn06d u0 0] r
    by simp
  show ?thesis
    using r t i by (simp add: cell_execute_def Let_def)
qed

lemma final_yield_800: "final_yield 800 = []"
  by (simp add: final_yield_def nip_fn06d_def)

lemma cell_plot_evolve_returning:
  "\<exists>r. cell_plot_evolve (returning f u0) w = Some r
     \<and> fst r = Inr 8 \<and> fst (snd r) = Exhausted
     \<and> solver_calls (trace (snd (snd r))) = solver_calls (trace w) @ [0..<n_steps]
     \<and> plots (trace (snd (snd r))) = plots (trace w) @ [0, 100, 200, 300, 400, 500, 600, 700]
     \<and> files_written (trace (snd (snd r))) = files_written (trace w)"
proof -
  let ?w1 = "emit (Figure (real_of_int 15) (real_of_int (15 * 3 div 5))) w"
  have pos: "0 < n_steps" by (simp add: n_steps_def)
  obtain r where
    "after_next (evolve_next_fn06d (returning f u0) n_steps dt_fn06d) 3 5 0
       (evolve_loop_fn06d (returning f u0) n_steps dt_fn06d 0 u0 0 ?w1) = Some r"
    "fst r = Inr (0 + int (length (filter (\<lambda>m. m mod nip_fn06d = 0) [0..<n_steps]
                                    @ final_yield n_steps)))"
    "fst (snd r) = Exhausted"
    "solver_calls (trace (snd (snd r))) = solver_calls (trace ?w1) @ [0..<n_steps]"
    "plots (trace (snd (snd r)))
       = plots (trace ?w1) @ filter (\<lambda>m. m mod nip_fn06d = 0) [0..<n_steps] @ final_yield n_steps"
    "files_written (trace (snd (snd r))) = files_written (trace ?w1)"
    using after_evolve_loop_fn06d [OF pos, of 0 n_steps f u0 dt_fn06d 3 5 0 u0 0 ?w1]
    by auto
  moreover have "filter (\<lambda>m. m mod nip_fn06d = 0) [0..<n_steps] @ final_yield n_steps
                   = [0, 100, 200, 300, 400, 500, 600, 700]"
    by (simp add: n_steps_def nip_fn06d_def hundreds_below_800 final_yield_800)
  ultimately show ?thesis
    by (simp add: cell_plot_evolve_def evolve_fn06d_def Let_def
        for_u_in_after_next [of _ _ _ _ Fresh] evolve_next_fn06d_simps)
qed

lemma cell_cavity_returns:
  "\<exists>s. cell_cavity P wfrCenter0 = Inr s
     \<and> length (cavitywfrList s) = 1 + 4 * npass
     \<and> propag_calls (trace s) = concat (map pass_calls [0..<npass])
     \<and> files_written (trace s) = []
     \<and> plots (trace s) = []
     \<and> cavity_inv s"
  using cavity_loop_Inr [where n = npass and i = 0 and P = P, OF cavity_inv_init refl, of wfrCenter0]
  by (auto simp: cell_cavity_def cavity_init_def)

lemma rms_loop_Inr:
  "n - j = k \<Longrightarrow> n \<le> length (cavitywfrList s) \<Longrightarrow>
   rms_loop n j s = Inr (s\<lparr>trace := trace s @ map Rms [j..<n]\<rparr>)"
proof (induction k arbitrary: j s)
  case 0
  then show ?case by (simp add: rms_loop.simps [of n j])
next
  case (Suc k)
  then have lt: "j < n" and k: "n - Suc j = k" by simp_all
  have upt: "[j..<n] = j # [Suc j..<n]"
    using lt by (simp add: upt_conv_Cons)
  have "rms_loop n (Suc j) (emit (Rms j) s)
          = Inr ((emit (Rms j) s)\<lparr>trace := trace (emit (Rms j) s) @ map Rms [Suc j..<n]\<rparr>)"
    using Suc.IH [OF k, of "emit (Rms j) s"] Suc.prems(2) by (simp add: emit_def)
  then show ?case
    using lt upt Suc.prems(2) by (simp add: rms_loop.simps [of n j] emit_def)
qed

lemma files_written_Rms [simp]: "files_written (map Rms js) = []"
  by (induction js) simp_all

lemma cell_rms_returns:
  "cell_rms s = Inr (s\<lparr>trace := trace s @ map Rms [0..<length (cavitywfrList s)]\<rparr>)"
  by (simp add: cell_rms_def rms_loop_Inr [where k = "length (cavitywfrList s)"])

lemma files_written_analytic_gain:
  "files_written (trace (snd (analytic_gain s))) = files_written (trace s)"
proof (cases "gamma_ts s = 0 \<or> eta_pulse (gain_setup s) = 0")
  case True
  then show ?thesis by (simp add: analytic_gain_unfold)
next
  case False
  then have nz: "gamma_ts (gain_setup s) \<noteq> 0" "eta_pulse (gain_setup s) \<noteq> 0"
    by simp_all
  show ?thesis
    using False by (simp add: analytic_gain_unfold gain_bounds_fields [OF nz])
qed

lemma cell_n_data_closed_form:
  "cell_n_data
     = Inr (map (\<lambda>j. n_ph_0_amp
                       / (1 - exp (- gamma_ts_amp * sigma_ts_amp * eta_pulse_amp
                                     * (dt_amp - real j * dz / scipy_constants_c) / tau_pulse_amp)))
              [0..<num_points_amp])"
proof -
  let ?t = "map (\<lambda>j. time_0 + real j * dt_amp) [0..<num_points_amp]"
  let ?z = "map (\<lambda>j. real j * dz) [0..<num_points_amp]"
  let ?D = "\<lambda>j. 1 - exp (- gamma_ts_amp * sigma_ts_amp * eta_pulse_amp
                            * (dt_amp - real j * dz / scipy_constants_c) / tau_pulse_amp)"
  have den: "denominator ?t ?z j = Inr (?D j)" if "j < num_points_amp" for j
    by (simp add: denominator_def retarded_time_value [OF that])
  have "n_data_loop num_points_amp 0 ?t ?z (zeros num_points_amp)
          = Inr (take 0 (zeros num_points_amp) @ map (\<lambda>j. n_ph_0_amp / ?D j) [0..<num_points_amp]
                 @ drop num_points_amp (zeros num_points_amp))"
    by (rule n_data_loop_closed_form [where k = num_points_amp and D = ?D])
       (simp_all add: den zeros_def)
  then show ?thesis
    by (simp add: cell_n_data_def cell_data_closed_form zeros_def)
qed

lemma cell_n_data_returns:
  "\<exists>n_data. cell_n_data = Inr n_data \<and> length n_data = 10"
  by (simp add: cell_n_data_closed_form num_points_amp_def)


lemma cell_profile_returns:
  "\<exists>delta_ts_1. cell_profile s = Inr delta_ts_1 \<and> length delta_ts_1 = 100"
  by (simp add: cell_profile_def zeros_def num_points_def
      profile_loop_closed_form [where k = 100])

lemma cell_savefig_run:
  "case run_steps (save_step lib) num_steps 0 (u_n w) of
     Inr v \<Rightarrow>
       fst (cell_savefig lib w) = Inr () \<and> u_n (snd (snd (cell_savefig lib w))) = v
       \<and> solver_calls (trace (snd (snd (cell_savefig lib w))))
           = solver_calls (trace w) @ [0..<num_steps]
       \<and> files_written (trace (snd (snd (cell_savefig lib w))))
           = files_written (trace w) @ map u_plot [0..<num_steps]
   | Inl (m, msg) \<Rightarrow>
       fst (cell_savefig lib w) = Inl (LibraryError msg) \<and> m < num_steps
       \<and> solver_calls (trace (snd (snd (cell_savefig lib w))))
           = solver_calls (trace w) @ [0..<Suc m]
       \<and> files_written (trace (snd (snd (cell_savefig lib w))))
           = files_written (trace w) @ map u_plot [0..<m]
       \<and> (last (trace (snd (snd (cell_savefig lib w)))) = Solve m
          \<or> last (trace (snd (snd (cell_savefig lib w)))) = Plot m)"
proof -
  obtain r vars w' where c: "cell_savefig lib w = (r, vars, w')"
    by (metis prod_cases3)
  then have l: "savefig_loop lib num_steps dt_xt02 0 (Function_V lib) 0 w = (r, vars, w')"
    by (simp add: cell_savefig_def)
  show ?thesis
    using savefig_loop_run [OF refl l] c
    by (auto split: sum.splits)
qed

lemma cell_savefig_no_directory:
  "cell_savefig (no_directory f u0) w
     = (Inl (LibraryError ''FileNotFoundError''), (f (u_n w), 0),
        w\<lparr>trace := trace w @ [Solve 0, Plot 0]\<rparr>)"
  by (simp add: cell_savefig_def savefig_loop.simps [of _ _ _ 0] num_steps_def Let_def emit_def)


lemma cell_execute_run:
  "Dcr_j (snd (snd (cell_execute lib w))) = Dcr_j w
   \<and> files_written (trace (snd (snd (cell_execute lib w)))) = files_written (trace w)
   \<and> (case run_steps (\<lambda>n v. solve lib (v, Dcr_j w)) n_steps 0 (nph_j w) of
        Inr v \<Rightarrow>
          fst (cell_execute lib w) = Inr () \<and> nph_j (snd (snd (cell_execute lib w))) = v
          \<and> solver_calls (trace (snd (snd (cell_execute lib w))))
              = solver_calls (trace w) @ [0..<n_steps]
      | Inl (m, msg) \<Rightarrow>
          fst (cell_execute lib w) = Inl (LibraryError msg) \<and> m < n_steps
          \<and> solver_calls (trace (snd (snd (cell_execute lib w))))
              = solver_calls (trace w) @ [0..<Suc m]
          \<and> last (trace (snd (snd (cell_execute lib w)))) = Solve m)"
proof -
  let ?w1 = "emit (Title ''population inversion density'') (emit (Figure 13 8) w)"
  obtain r vars w' where
    t: "time_steps lib n_steps dt_fn06d 0 (Function_V lib) (Dcr_j w) 0 ?w1 = (r, vars, w')"
    by (metis prod_cases3)
  have D: "Dcr_j ?w1 = Dcr_j w" by simp
  note run = time_steps_run [OF refl D t]
  show ?thesis
  proof (cases r)
    case (Inl e)
    with t have c: "cell_execute lib w = (Inl e, vars, w')"
      by (simp add: cell_execute_def Let_def)
    show ?thesis
      using run Inl by (auto simp: c split: sum.splits)
  next
    case (Inr x)
    with t have c: "cell_execute lib w
        = (Inr (), vars,
           emit Close (emit Show (emit Grid (emit PlotFinal (emit Axvline (emit Axvline w'))))))"
      by (simp add: cell_execute_def Let_def)
    show ?thesis
      using run Inr by (auto simp: c split: sum.splits)
  qed
qed

lemma cell_plot_evolve_run:
  "\<exists>r. cell_plot_evolve lib w = Some r
     \<and> fst (snd r) = Exhausted
     \<and> Dcr_j (snd (snd r)) = Dcr_j w
     \<and> files_written (trace (snd (snd r))) = files_written (trace w)
     \<and> (case run_steps (\<lambda>n v. solve lib (v, Dcr_j w)) n_steps 0 (nph_j w) of
          Inr v \<Rightarrow>
            fst r = Inr 8 \<and> nph_j (snd (snd r)) = v
            \<and> solver_calls (trace (snd (snd r))) = solver_calls (trace w) @ [0..<n_steps]
        | Inl (m, msg) \<Rightarrow>
            fst r = Inl (LibraryError msg) \<and> m < n_steps
            \<and> solver_calls (trace (snd (snd r))) = solver_calls (trace w) @ [0..<Suc m]
            \<and> last (trace (snd (snd r))) = Solve m)"
proof -
  let ?w1 = "emit (Figure (real_of_int 15) (real_of_int (15 * 3 div 5))) w"
  have pos: "0 < n_steps" by (simp add: n_steps_def)
  have eight: "length (filter (\<lambda>m. m mod nip_fn06d = 0) [0..<n_steps] @ final_yield n_steps) = 8"
    by (simp add: n_steps_def nip_fn06d_def hundreds_below_800 final_yield_800)
  obtain r where r:
    "after_next (evolve_next_fn06d lib n_steps dt_fn06d) 3 5 0
       (evolve_loop_fn06d lib n_steps dt_fn06d 0 (Function_V lib) 0 ?w1) = Some r"
    "fst (snd r) = Exhausted"
    "Dcr_j (snd (snd r)) = Dcr_j ?w1"
    "files_written (trace (snd (snd r))) = files_written (trace ?w1)"
    "case run_steps (\<lambda>n v. solve lib (v, Dcr_j ?w1)) n_steps 0 (nph_j ?w1) of
       Inr v \<Rightarrow>
         fst r = Inr (0 + int (length (filter (\<lambda>m. m mod nip_fn06d = 0) [0..<n_steps]
                                         @ final_yield n_steps)))
         \<and> nph_j (snd (snd r)) = v
         \<and> solver_calls (trace (snd (snd r))) = solver_calls (trace ?w1) @ [0..<n_steps]
     | Inl (m, msg) \<Rightarrow>
         fst r = Inl (LibraryError msg) \<and> 0 \<le> m \<and> m < n_steps
         \<and> solver_calls (trace (snd (snd r))) = solver_calls (trace ?w1) @ [0..<Suc m]
         \<and> last (trace (snd (snd r))) = Solve m"
    using after_evolve_loop_fn06d_run [OF pos refl, where ii = 0 and lib = lib and dt = dt_fn06d
        and n_rows = 3 and n_cols = 5 and idx = 0 and nph = "Function_V lib" and t = 0 and w = ?w1]
    by auto
  have c: "cell_plot_evolve lib w = Some r"
    using r(1)
    by (simp add: cell_plot_evolve_def evolve_fn06d_def Let_def
        for_u_in_after_next [of _ _ _ _ Fresh] evolve_next_fn06d_simps)
  show ?thesis
    using c r(2-5) by (auto simp: eight simp del: length_append split: sum.splits)
qed


lemma str_digits: "str 0 = ''0''" "str 1 = ''1''"
  by (simp_all add: str.simps digit_char_def)

section \<open>The claims\<close>

subsection \<open>C1: solver calls per iteration\<close>

text \<open>
  C1 (counterexample). The claim that every loop that advances a simulation calls the
  library's solver once per iteration fails in the cavity notebook: its four passes make
  sixteen calls of \<open>srwl.PropagElecField\<close>, four of them in pass 0.
\<close>

theorem cavity_pass_calls_propagation_four_times:
  "map_sum id (\<lambda>s. map fst (propag_calls (trace s))) (cell_cavity (\<lambda>bl x. x + 1) (0::nat))
     = Inr [0, 0, 0, 0, 1, 1, 1, 1, 2, 2, 2, 2, 3, 3, 3, 3]
   \<and> map_sum id (\<lambda>s. length (filter (\<lambda>c. fst c = 0) (propag_calls (trace s))))
         (cell_cavity (\<lambda>bl x. x + 1) (0::nat)) = Inr 4"
proof -
  obtain s where "cell_cavity (\<lambda>bl x. x + 1) (0::nat) = Inr s"
    and "propag_calls (trace s) = concat (map pass_calls [0..<npass])"
    using cell_cavity_returns [of "\<lambda>bl x. x + 1" "0::nat"] by blast
  then show ?thesis
    by (simp add: npass_def pass_calls_def upt_rec)
qed

text \<open>
  C1 (amended). In the FEniCS notebooks (heat diffusion, amplifier) a time loop calls
  \<open>solve\<close> exactly once per step: when every library call returns, \<open>solve\<close> is
  called at the steps 0 to 49, each once and in order, by the heat notebook's \<open>evolve\<close>
  (driven by \<open>multiplot_from_generator\<close>) and by its saving loop, which plots at
  every step; and at the steps 0 to 799 by the amplifier notebook's loop, which plots at
  every 100th step, and by its \<open>evolve\<close>, which yields 8 times. The saving loop calls
  \<open>plt.savefig\<close> into the directory \<open>heat_2D_sqr\<close>, which the notebook does not
  create: when that call raises at step 0, the loop ends there, after one call of
  \<open>solve\<close> and one plot. In the cavity notebook each of the 4 passes of the loop calls
  \<open>srwl.PropagElecField\<close> four times (to the right mirror, through the drift, to the
  left mirror and through the drift) and renders no plot.
\<close>

theorem one_solver_call_per_time_step:
  "(\<exists>w'. cell_multiplot (returning f u0) w = Some (Inr (), Finished, w')
         \<and> solver_calls (trace w') = solver_calls (trace w) @ [0..<50])
   \<and> fst (cell_savefig (returning f u0) w) = Inr ()
   \<and> solver_calls (trace (snd (snd (cell_savefig (returning f u0) w))))
       = solver_calls (trace w) @ [0..<50]
   \<and> plots (trace (snd (snd (cell_savefig (returning f u0) w)))) = plots (trace w) @ [0..<50]
   \<and> fst (cell_savefig (no_directory f u0) w) = Inl (LibraryError ''FileNotFoundError'')
   \<and> trace (snd (snd (cell_savefig (no_directory f u0) w))) = trace w @ [Solve 0, Plot 0]
   \<and> fst (cell_execute (returning f2 u0) w2) = Inr ()
   \<and> solver_calls (trace (snd (snd (cell_execute (returning f2 u0) w2))))
       = solver_calls (trace w2) @ [0..<800]
   \<and> plots (trace (snd (snd (cell_execute (returning f2 u0) w2))))
       = plots (trace w2) @ [0, 100, 200, 300, 400, 500, 600, 700]
   \<and> (\<exists>r. cell_plot_evolve (returning f2 u0) w2 = Some r \<and> fst r = Inr 8
         \<and> solver_calls (trace (snd (snd r))) = solver_calls (trace w2) @ [0..<800])
   \<and> (\<exists>s. cell_cavity PropagElecField wfrCenter0 = Inr s
         \<and> propag_calls (trace s)
             = concat (map (\<lambda>i. [(i, propagateRight), (i, propagateDrift),
                                  (i, propagateLeft), (i, propagateDrift)]) [0..<4])
         \<and> plots (trace s) = [])"
proof -
  have heat: "\<exists>w'. cell_multiplot (returning f u0) w = Some (Inr (), Finished, w')
         \<and> solver_calls (trace w') = solver_calls (trace w) @ [0..<50]"
    using cell_multiplot_returning_trace [of f u0 w] by (auto simp: num_steps_def)
  have evolve2: "\<exists>r. cell_plot_evolve (returning f2 u0) w2 = Some r \<and> fst r = Inr 8
         \<and> solver_calls (trace (snd (snd r))) = solver_calls (trace w2) @ [0..<800]"
    using cell_plot_evolve_returning [of f2 u0 w2] by (auto simp: n_steps_def)
  have cavity: "\<exists>s. cell_cavity PropagElecField wfrCenter0 = Inr s
         \<and> propag_calls (trace s)
             = concat (map (\<lambda>i. [(i, propagateRight), (i, propagateDrift),
                                  (i, propagateLeft), (i, propagateDrift)]) [0..<4])
         \<and> plots (trace s) = []"
  proof -
    have "pass_calls = (\<lambda>i. [(i, propagateRight), (i, propagateDrift),
                             (i, propagateLeft), (i, propagateDrift)])"
      by (rule ext) (simp add: pass_calls_def)
    then show ?thesis
      using cell_cavity_returns [of PropagElecField wfrCenter0]
      by (auto simp: npass_def)
  qed
  have save: "fst (cell_savefig (returning f u0) w) = Inr ()"
    "solver_calls (trace (snd (snd (cell_savefig (returning f u0) w))))
       = solver_calls (trace w) @ [0..<50]"
    "plots (trace (snd (snd (cell_savefig (returning f u0) w)))) = plots (trace w) @ [0..<50]"
    using cell_savefig_returning [of f u0 w] by (simp_all add: num_steps_def)
  have missing: "fst (cell_savefig (no_directory f u0) w) = Inl (LibraryError ''FileNotFoundError'')"
    "trace (snd (snd (cell_savefig (no_directory f u0) w))) = trace w @ [Solve 0, Plot 0]"
    by (simp_all add: cell_savefig_no_directory)
  have exec: "fst (cell_execute (returning f2 u0) w2) = Inr ()"
    "solver_calls (trace (snd (snd (cell_execute (returning f2 u0) w2))))
       = solver_calls (trace w2) @ [0..<800]"
    "plots (trace (snd (snd (cell_execute (returning f2 u0) w2))))
       = plots (trace w2) @ [0, 100, 200, 300, 400, 500, 600, 700]"
    using cell_execute_returning [of f2 u0 w2]
    by (simp_all add: n_steps_def nip_fn06d_def hundreds_below_800)
  show ?thesis
    using heat save missing exec evolve2 cavity by blast
qed

subsection \<open>C2: guards on the numeric state\<close>




subsection \<open>C3: error handling\<close>




subsection \<open>C4: files written\<close>

text \<open>
  C4 (counterexample). The claim that no notebook writes a file of its own layout fails
  for the wavefront notebook: its export cell writes \<open>InitialWavefrontArray.txt\<close>, a
  file whose name and number format \<open>%.18e\<close> the cell chooses.
\<close>

theorem export_cell_writes_a_file:
  "trace (cell_export \<lparr>trace = []\<rparr>) = [SaveTxt ''InitialWavefrontArray.txt'' ''%.18e'']
   \<and> files_written (trace (cell_export \<lparr>trace = []\<rparr>)) = [''InitialWavefrontArray.txt'']"
  by (simp add: cell_export_def emit_def)

text \<open>
  C4 (amended). Two cells write files whose names and layout the notebook chooses. The
  wavefront notebook exports the intensity array with \<open>np.savetxt\<close> to
  \<open>InitialWavefrontArray.txt\<close> in the format \<open>%.18e\<close>. The heat notebook's saving loop
  writes the plot of each step it completes with \<open>plt.savefig\<close> to
  \<open>heat_2D_sqr/u_plot_<n>.png\<close>: the 50 files of the steps 0 to 49 when \<open>solve\<close> and
  \<open>plt.savefig\<close> return at every step, and the files of the steps before the first call
  that raises otherwise. The notebook does not create the directory \<open>heat_2D_sqr\<close>:
  where it is missing, \<open>plt.savefig\<close> raises at step 0 and the loop writes no file. The
  other cells write no file: the heat notebook's \<open>multiplot_from_generator(evolve(), 5)\<close>
  and the two loops of the amplifier notebook, whether \<open>solve\<close> returns or raises in
  them, the cavity notebook's propagation and rms loops and the analytic-gain cell only
  call the libraries, plot and print.
\<close>

theorem files_written_by_the_notebooks:
  "trace (cell_export w0) = trace w0 @ [SaveTxt ''InitialWavefrontArray.txt'' ''%.18e'']
   \<and> files_written (trace (snd (snd (cell_savefig (returning f u0) w))))
       = files_written (trace w)
         @ map (\<lambda>n. ''heat_2D_sqr/'' @ ''u_plot_'' @ str n @ ''.png'') [0..<50]
   \<and> (case run_steps
              (\<lambda>n v. case solve lib v of
                        Inl msg \<Rightarrow> Inl msg
                      | Inr v' \<Rightarrow>
                          (case savefig lib (''heat_2D_sqr/'' @ ''u_plot_'' @ str n @ ''.png'') of
                             Inl msg \<Rightarrow> Inl msg
                           | Inr _ \<Rightarrow> Inr v'))
              50 0 (u_n w) of
         Inr v \<Rightarrow>
           files_written (trace (snd (snd (cell_savefig lib w))))
             = files_written (trace w)
               @ map (\<lambda>n. ''heat_2D_sqr/'' @ ''u_plot_'' @ str n @ ''.png'') [0..<50]
       | Inl (k, msg) \<Rightarrow>
           files_written (trace (snd (snd (cell_savefig lib w))))
             = files_written (trace w)
               @ map (\<lambda>n. ''heat_2D_sqr/'' @ ''u_plot_'' @ str n @ ''.png'') [0..<k])
   \<and> fst (cell_savefig (no_directory f u0) w) = Inl (LibraryError ''FileNotFoundError'')
   \<and> files_written (trace (snd (snd (cell_savefig (no_directory f u0) w))))
       = files_written (trace w)
   \<and> (\<exists>r w'. cell_multiplot lib w = Some (r, Finished, w')
         \<and> files_written (trace w') = files_written (trace w))
   \<and> files_written (trace (snd (snd (cell_execute lib2 w2)))) = files_written (trace w2)
   \<and> (\<exists>r. cell_plot_evolve lib2 w2 = Some r
         \<and> files_written (trace (snd (snd r))) = files_written (trace w2))
   \<and> (\<exists>s s'. cell_cavity PropagElecField wfrCenter0 = Inr s \<and> files_written (trace s) = []
         \<and> cell_rms s = Inr s' \<and> files_written (trace s') = [])
   \<and> files_written (trace (snd (cell_gain k))) = files_written (trace k)"
proof -
  have export: "trace (cell_export w0) = trace w0 @ [SaveTxt ''InitialWavefrontArray.txt'' ''%.18e'']"
    by (simp add: cell_export_def)
  have name: "u_plot = (\<lambda>n. ''heat_2D_sqr/'' @ ''u_plot_'' @ str n @ ''.png'')"
    by (rule ext) (simp add: u_plot_def)
  have step: "save_step lib
                = (\<lambda>n v. case solve lib v of
                            Inl msg \<Rightarrow> Inl msg
                          | Inr v' \<Rightarrow>
                              (case savefig lib (''heat_2D_sqr/'' @ ''u_plot_'' @ str n @ ''.png'') of
                                 Inl msg \<Rightarrow> Inl msg
                               | Inr _ \<Rightarrow> Inr v'))"
    unfolding save_step_def u_plot_def by (intro ext) (rule refl)
  have save: "files_written (trace (snd (snd (cell_savefig (returning f u0) w))))
       = files_written (trace w)
         @ map (\<lambda>n. ''heat_2D_sqr/'' @ ''u_plot_'' @ str n @ ''.png'') [0..<50]"
    using cell_savefig_returning [of f u0 w] by (simp add: num_steps_def name)
  have any: "case run_steps
              (\<lambda>n v. case solve lib v of
                        Inl msg \<Rightarrow> Inl msg
                      | Inr v' \<Rightarrow>
                          (case savefig lib (''heat_2D_sqr/'' @ ''u_plot_'' @ str n @ ''.png'') of
                             Inl msg \<Rightarrow> Inl msg
                           | Inr _ \<Rightarrow> Inr v'))
              50 0 (u_n w) of
         Inr v \<Rightarrow>
           files_written (trace (snd (snd (cell_savefig lib w))))
             = files_written (trace w)
               @ map (\<lambda>n. ''heat_2D_sqr/'' @ ''u_plot_'' @ str n @ ''.png'') [0..<50]
       | Inl (k, msg) \<Rightarrow>
           files_written (trace (snd (snd (cell_savefig lib w))))
             = files_written (trace w)
               @ map (\<lambda>n. ''heat_2D_sqr/'' @ ''u_plot_'' @ str n @ ''.png'') [0..<k]"
    using cell_savefig_run [of lib w]
    unfolding step name num_steps_def
    by (cases "run_steps
              (\<lambda>n v. case solve lib v of
                        Inl msg \<Rightarrow> Inl msg
                      | Inr v' \<Rightarrow>
                          (case savefig lib (''heat_2D_sqr/'' @ ''u_plot_'' @ str n @ ''.png'') of
                             Inl msg \<Rightarrow> Inl msg
                           | Inr _ \<Rightarrow> Inr v'))
              50 0 (u_n w)") auto
  have missing: "fst (cell_savefig (no_directory f u0) w) = Inl (LibraryError ''FileNotFoundError'')"
    "files_written (trace (snd (snd (cell_savefig (no_directory f u0) w))))
       = files_written (trace w)"
    by (simp_all add: cell_savefig_no_directory)
  have multi: "\<exists>r w'. cell_multiplot lib w = Some (r, Finished, w')
         \<and> files_written (trace w') = files_written (trace w)"
    using cell_multiplot_run [of lib w] by blast
  have exec: "files_written (trace (snd (snd (cell_execute lib2 w2)))) = files_written (trace w2)"
    using cell_execute_run [of lib2 w2] by simp
  have evolve2: "\<exists>r. cell_plot_evolve lib2 w2 = Some r
         \<and> files_written (trace (snd (snd r))) = files_written (trace w2)"
    using cell_plot_evolve_run [of lib2 w2] by blast
  have cavity: "\<exists>s s'. cell_cavity PropagElecField wfrCenter0 = Inr s \<and> files_written (trace s) = []
         \<and> cell_rms s = Inr s' \<and> files_written (trace s') = []"
  proof -
    obtain s where s: "cell_cavity PropagElecField wfrCenter0 = Inr s"
      "files_written (trace s) = []"
      using cell_cavity_returns [of PropagElecField wfrCenter0] by blast
    then show ?thesis
      by (simp add: cell_rms_returns)
  qed
  have gain: "files_written (trace (snd (cell_gain k))) = files_written (trace k)"
    by (simp add: cell_gain_def files_written_analytic_gain gain_input_def)
  show ?thesis
    using export save any missing multi exec evolve2 cavity gain by blast
qed

subsection \<open>C5: termination\<close>

text \<open>
  C5 (counterexample). The claim that every loop of the repository ranges over a fixed
  finite bound fails for the \<open>while True\<close> loop of \<open>multiplot_from_generator\<close>: nothing
  but an exception ends it. Called on \<open>evolve()\<close> with no columns and a figure size, it
  never calls \<open>next\<close> and never returns.
\<close>

theorem multiplot_without_columns_never_returns:
  "multiplot_from_generator (evolve (returning Suc 0)) Created 0 (Some (15, 3))
     \<lparr>trace = [], u_n = 0\<rparr> = None"
  by (simp add: multiplot_from_generator_def multiplot_while_no_columns handle_StopIteration_def)

text \<open>
  C5 (amended). Every loop of the notebooks returns, as the notebooks call it and as long
  as the library calls in it return. The \<open>for\<close> loops run over ranges fixed before the
  loop: 50 steps in the heat notebook, 800 steps in the amplifier notebook, 4 passes and
  then the 17 listed wavefronts in the cavity notebook, 10 and 100 points in the data
  loops. The \<open>while True\<close> loop of \<open>multiplot_from_generator\<close> and the loop
  \<open>for u in evolve()\<close> have no bound of their own: they end when the generator raises
  \<open>StopIteration\<close>, which \<open>evolve\<close> does after its 50 or 800 steps, or when a library
  call fails.
\<close>

theorem notebook_loops_return:
  "(\<exists>r. cell_multiplot lib w = Some r)
   \<and> fst (cell_savefig (returning f u0) w) = Inr ()
   \<and> length (solver_calls (trace (snd (snd (cell_savefig (returning f u0) w)))))
       = length (solver_calls (trace w)) + 50
   \<and> fst (cell_execute (returning f2 u0) w2) = Inr ()
   \<and> length (solver_calls (trace (snd (snd (cell_execute (returning f2 u0) w2)))))
       = length (solver_calls (trace w2)) + 800
   \<and> (\<exists>r. cell_plot_evolve (returning f2 u0) w2 = Some r \<and> fst r = Inr 8
         \<and> length (solver_calls (trace (snd (snd r)))) = length (solver_calls (trace w2)) + 800)
   \<and> (\<exists>s s'. cell_cavity PropagElecField wfrCenter0 = Inr s
         \<and> length (cavitywfrList s) = 17 \<and> length (propag_calls (trace s)) = 4 * 4
         \<and> cell_rms s = Inr s' \<and> trace s' = trace s @ map Rms [0..<17])
   \<and> (\<exists>t_data z_data. cell_data = Inr (t_data, z_data)
         \<and> length t_data = 10 \<and> length z_data = 10)
   \<and> (\<exists>n_data. cell_n_data = Inr n_data \<and> length n_data = 10)
   \<and> (\<exists>delta_ts_1. cell_profile k = Inr delta_ts_1 \<and> length delta_ts_1 = 100)"
proof -
  have multi: "\<exists>r. cell_multiplot lib w = Some r"
    using multiplot_while_evolve [of 5 lib num_steps dt_xt02 "(15, 15 / real_of_int 5)" w]
    by (auto simp: cell_multiplot_def multiplot_from_generator_def evolve_def
        handle_StopIteration_def)
  have save: "fst (cell_savefig (returning f u0) w) = Inr ()"
    "length (solver_calls (trace (snd (snd (cell_savefig (returning f u0) w)))))
       = length (solver_calls (trace w)) + 50"
    using cell_savefig_returning [of f u0 w] by (simp_all add: num_steps_def)
  have exec: "fst (cell_execute (returning f2 u0) w2) = Inr ()"
    "length (solver_calls (trace (snd (snd (cell_execute (returning f2 u0) w2)))))
       = length (solver_calls (trace w2)) + 800"
    using cell_execute_returning [of f2 u0 w2] by (simp_all add: n_steps_def)
  have evolve2: "\<exists>r. cell_plot_evolve (returning f2 u0) w2 = Some r \<and> fst r = Inr 8
         \<and> length (solver_calls (trace (snd (snd r)))) = length (solver_calls (trace w2)) + 800"
  proof -
    obtain r where "cell_plot_evolve (returning f2 u0) w2 = Some r" "fst r = Inr 8"
      "solver_calls (trace (snd (snd r))) = solver_calls (trace w2) @ [0..<n_steps]"
      using cell_plot_evolve_returning [of f2 u0 w2] by blast
    then show ?thesis by (simp add: n_steps_def)
  qed
  have cavity: "\<exists>s s'. cell_cavity PropagElecField wfrCenter0 = Inr s
         \<and> length (cavitywfrList s) = 17 \<and> length (propag_calls (trace s)) = 4 * 4
         \<and> cell_rms s = Inr s' \<and> trace s' = trace s @ map Rms [0..<17]"
  proof -
    obtain s where s: "cell_cavity PropagElecField wfrCenter0 = Inr s"
      "length (cavitywfrList s) = 1 + 4 * npass"
      "propag_calls (trace s) = concat (map pass_calls [0..<npass])"
      using cell_cavity_returns [of PropagElecField wfrCenter0] by blast
    have "length (concat (map pass_calls [0..<npass])) = 4 * 4"
      by (simp add: npass_def upt_rec pass_calls_def)
    with s show ?thesis
      by (simp add: cell_rms_returns npass_def)
  qed
  have data: "\<exists>t_data z_data. cell_data = Inr (t_data, z_data)
         \<and> length t_data = 10 \<and> length z_data = 10"
    by (simp add: cell_data_closed_form num_points_amp_def)
  show ?thesis
    using multi save exec evolve2 cavity data cell_n_data_returns cell_profile_returns [of k]
    by blast
qed

subsection \<open>C6: the cadence of the plots\<close>

text \<open>
  C6. In the heat-diffusion notebook, whenever the solver returns, the generator
  \<open>evolve\<close> yields a plot exactly at the steps \<open>n\<close> of \<open>0..49\<close> with \<open>n mod 10 = 0\<close>:
  the steps 0, 10, 20, 30 and 40, so 5 plots over the 50 time steps, the first at step 0.
  These are the values the drained generator yields and the steps of its \<open>plot\<close> calls.
\<close>

theorem evolve_plots_every_10_steps:
  "yields (evolve (returning f u0)) Created w = Some (filter (\<lambda>n. n mod 10 = 0) [0..<50])
   \<and> yields (evolve (returning f u0)) Created w = Some [0, 10, 20, 30, 40]
   \<and> map_option length (yields (evolve (returning f u0)) Created w) = Some 5
   \<and> map_option hd (yields (evolve (returning f u0)) Created w) = Some 0
   \<and> map_option (\<lambda>r. plots (trace (snd (snd (snd r))))) (drain (evolve (returning f u0)) [] Created w)
       = Some (plots (trace w) @ [0, 10, 20, 30, 40])"
proof -
  obtain w' where
    "drain (evolve_next (returning f u0) num_steps dt_xt02) [] Created w
       = Some (filter (\<lambda>m. m mod nip_xt02 = 0) [0..<num_steps], StopIteration, Finished, w')"
    "plots (trace w') = plots (trace w) @ filter (\<lambda>m. m mod nip_xt02 = 0) [0..<num_steps]"
    using drain_evolve_next [of f u0 num_steps dt_xt02 w] by blast
  then show ?thesis
    by (simp add: evolve_def yields_def num_steps_def nip_xt02_def multiples_of_10_below_50)
qed

subsection \<open>C7: determinism of the analytic gain\<close>

text \<open>
  C7. The analytic-gain computation of fn1d\_02 is determined by its six parameters:
  from any two states of the kernel that agree on \<open>gamma_ts\<close>, \<open>sigma_ts\<close>,
  \<open>delta_ts_0\<close>, \<open>n_ph_0\<close>, \<open>tau_pulse\<close> and \<open>length_ts\<close>, whatever else they hold,
  the computation prints the same lines with the same values (\<open>eta_pulse\<close>,
  \<open>epsilon_ts\<close>, \<open>factor_ts\<close>, \<open>factor_max\<close>, \<open>delta_ts_0\<close>, \<open>delta_ts\<close>, \<open>n_ph_0\<close>,
  \<open>g_e\<close>, \<open>n_ph\<close>) and ends the same way.
\<close>

theorem analytic_gain_output_determined:
  assumes "gamma_ts s = gamma_ts s'" and "sigma_ts s = sigma_ts s'"
    and "delta_ts_0 s = delta_ts_0 s'" and "n_ph_0 s = n_ph_0 s'"
    and "tau_pulse s = tau_pulse s'" and "length_ts s = length_ts s'"
  shows "cell_output s (analytic_gain s) = cell_output s' (analytic_gain s')
         \<and> fst (analytic_gain s) = fst (analytic_gain s')"
proof (cases "gamma_ts s = 0 \<or> eta_pulse (gain_setup s) = 0")
  case True
  with assms show ?thesis
    by (simp add: analytic_gain_unfold cell_output_def)
next
  case False
  then have nz: "gamma_ts (gain_setup s) \<noteq> 0" "eta_pulse (gain_setup s) \<noteq> 0"
    and nz': "gamma_ts (gain_setup s') \<noteq> 0" "eta_pulse (gain_setup s') \<noteq> 0"
    using assms by simp_all
  show ?thesis
    using False assms
    by (simp add: analytic_gain_unfold cell_output_def gain_bounds_fields [OF nz]
        gain_bounds_fields [OF nz'] gain_branch_result)
qed

text \<open>
  C7 (witness): the notebook's parameters in a fresh kernel and in a kernel that has
  printed before and holds stale values of \<open>g_e\<close> and \<open>delta_ts\<close>. Both runs print the
  nine lines of the notebook.
\<close>

theorem analytic_gain_output_determined_witness:
  "gamma_ts (gain_input (cell_initial kernel0)) = gamma_ts (gain_input (cell_initial stale_kernel))
   \<and> sigma_ts (gain_input (cell_initial kernel0)) = sigma_ts (gain_input (cell_initial stale_kernel))
   \<and> delta_ts_0 (gain_input (cell_initial kernel0))
       = delta_ts_0 (gain_input (cell_initial stale_kernel))
   \<and> n_ph_0 (gain_input (cell_initial kernel0)) = n_ph_0 (gain_input (cell_initial stale_kernel))
   \<and> tau_pulse (gain_input (cell_initial kernel0))
       = tau_pulse (gain_input (cell_initial stale_kernel))
   \<and> length_ts (gain_input (cell_initial kernel0))
       = length_ts (gain_input (cell_initial stale_kernel))
   \<and> g_e (gain_input (cell_initial kernel0)) \<noteq> g_e (gain_input (cell_initial stale_kernel))
   \<and> cell_output (gain_input (cell_initial stale_kernel))
         (analytic_gain (gain_input (cell_initial stale_kernel)))
       = cell_output (gain_input (cell_initial kernel0))
           (analytic_gain (gain_input (cell_initial kernel0)))
   \<and> cell_output (gain_input (cell_initial kernel0))
         (analytic_gain (gain_input (cell_initial kernel0)))
       = [(''  eta_pulse = '', 2997924580000),
          ('' epsilon_ts = '', 899377374 / 10 ^ 15),
          (''  factor_ts = '', 150),
          ('' factor_max = '', ln (1 + 10 ^ 21 / 2 / 2997924580000)),
          (''delta_ts_0 = '', 10 ^ 21),
          (''  delta_ts = '', 0),
          (''    n_ph_0 = '', 10 ^ 11),
          (''       g_e = '', 1 + 10 ^ 21 / 2 / 2997924580000),
          (''      n_ph = '', (1 + 10 ^ 21 / 2 / 2997924580000) * 10 ^ 11)]"
proof -
  let ?s = "gain_input (cell_initial kernel0)"
  let ?s' = "gain_input (cell_initial stale_kernel)"
  have p: "gamma_ts ?s' = gamma_ts ?s" "sigma_ts ?s' = sigma_ts ?s"
    "delta_ts_0 ?s' = delta_ts_0 ?s" "n_ph_0 ?s' = n_ph_0 ?s"
    "tau_pulse ?s' = tau_pulse ?s" "length_ts ?s' = length_ts ?s"
    by (simp_all add: notebook_parameters)
  have stale: "g_e ?s \<noteq> g_e ?s'"
    by (simp add: gain_input_def cell_initial_def kernel0_def stale_kernel_def Let_def)
  have nz: "gamma_ts (gain_setup ?s) \<noteq> 0" "eta_pulse (gain_setup ?s) \<noteq> 0"
    by (simp_all add: notebook_parameters scipy_constants_c_def)
  have guard: "\<not> 150 < ln (1 + 10 ^ 21 / 2 / 2997924580000 :: real)"
    using notebook_guard by simp
  have tr: "trace ?s = []"
    by (simp add: gain_input_def cell_initial_def kernel0_def Let_def)
  have out: "cell_output ?s (analytic_gain ?s)
       = [(''  eta_pulse = '', 2997924580000),
          ('' epsilon_ts = '', 899377374 / 10 ^ 15),
          (''  factor_ts = '', 150),
          ('' factor_max = '', ln (1 + 10 ^ 21 / 2 / 2997924580000)),
          (''delta_ts_0 = '', 10 ^ 21),
          (''  delta_ts = '', 0),
          (''    n_ph_0 = '', 10 ^ 11),
          (''       g_e = '', 1 + 10 ^ 21 / 2 / 2997924580000),
          (''      n_ph = '', (1 + 10 ^ 21 / 2 / 2997924580000) * 10 ^ 11)]"
    using guard
    by (simp add: cell_output_def analytic_gain_unfold gain_bounds_fields [OF nz]
        gain_branch_result notebook_parameters scipy_constants_c_def tr)
  show ?thesis
    using analytic_gain_output_determined [OF p] p stale out by simp
qed

subsection \<open>C8: the list of wavefronts\<close>

text \<open>
  C8. In the cavity notebook the loop, run with \<open>npass = 4\<close>, returns with
  \<open>1 + 4 * npass = 17\<close> wavefronts in \<open>cavitywfrList\<close>, 17 distinct objects, and its
  first element is still the initial wavefront \<open>wfrCenter0\<close>, unmodified. Each
  propagation acts on a deepcopy of the last element: pass \<open>j\<close> leaves every object
  that exists before it as it is, listed or not, and adds four new objects to the heap
  and to the end of the list, which are the copy of the last listed wavefront propagated
  to the right mirror, the copy of that one propagated through the drift, the copy of
  that one propagated to the left mirror and the copy of that one propagated through the
  drift. So no pass modifies an element already in the list: each element listed before
  the pass is the same object after it, with the same value.
\<close>

theorem cavity_list_holds_17_untouched_wavefronts:
  "\<exists>s. cell_cavity P wfrCenter0 = Inr s
       \<and> length (cavitywfrList s) = 1 + 4 * npass
       \<and> length (cavitywfrList s) = 17
       \<and> distinct (cavitywfrList s)
       \<and> cavitywfrList s ! 0 = 0
       \<and> heap s ! (cavitywfrList s ! 0) = wfrCenter0
       \<and> (\<forall>j<npass. \<exists>s_j s_j'.
             cavity_loop P j 0 (cavity_init wfrCenter0) = Inr s_j
           \<and> cavity_pass P j s_j = Inr s_j'
           \<and> cavity_loop P (Suc j) 0 (cavity_init wfrCenter0) = Inr s_j'
           \<and> (\<forall>k<length (cavitywfrList s_j).
                  cavitywfrList s_j' ! k = cavitywfrList s_j ! k
                \<and> heap s_j' ! (cavitywfrList s_j ! k) = heap s_j ! (cavitywfrList s_j ! k))
           \<and> cavitywfrList s_j \<noteq> []
           \<and> list_all (\<lambda>a. a < length (heap s_j)) (cavitywfrList s_j)
           \<and> cavitywfrList s_j'
               = cavitywfrList s_j @ [length (heap s_j), length (heap s_j) + 1,
                                      length (heap s_j) + 2, length (heap s_j) + 3]
           \<and> heap s_j' = heap s_j @
                 [P propagateRight (heap s_j ! last (cavitywfrList s_j)),
                  P propagateDrift (P propagateRight (heap s_j ! last (cavitywfrList s_j))),
                  P propagateLeft (P propagateDrift
                     (P propagateRight (heap s_j ! last (cavitywfrList s_j)))),
                  P propagateDrift (P propagateLeft (P propagateDrift
                     (P propagateRight (heap s_j ! last (cavitywfrList s_j)))))])"
proof -
  let ?s0 = "cavity_init wfrCenter0"
  obtain s where run: "cavity_loop P npass 0 ?s0 = Inr s"
    and len: "length (cavitywfrList s) = length (cavitywfrList ?s0) + 4 * (npass - 0)"
    and tl: "take (length (cavitywfrList ?s0)) (cavitywfrList s) = cavitywfrList ?s0"
    and th: "take (length (heap ?s0)) (heap s) = heap ?s0"
    using cavity_loop_Inr [where n = npass and i = 0 and P = P, OF cavity_inv_init refl, of wfrCenter0] by blast
  have len': "length (cavitywfrList s) = 1 + 4 * npass"
    using len by (simp add: cavity_init_def)
  have "cavitywfrList ?s0 = [0..<length (heap ?s0)]"
    by (simp add: cavity_init_def)
  then have "cavitywfrList s = [0..<length (heap s)]"
    using cavity_loop_addresses [where n = npass and i = 0 and P = P,
        OF cavity_inv_init [of wfrCenter0] _ refl] run
    by auto
  then have dist: "distinct (cavitywfrList s)"
    by simp
  have "take 1 (cavitywfrList s) = [0]"
    using tl by (simp add: cavity_init_def)
  then have first: "cavitywfrList s ! 0 = 0"
    by (metis nth_Cons_0 nth_take zero_less_one)
  have "take 1 (heap s) = [wfrCenter0]"
    using th by (simp add: cavity_init_def)
  then have "heap s ! 0 = wfrCenter0"
    by (metis nth_Cons_0 nth_take zero_less_one)
  then have hd: "heap s ! (cavitywfrList s ! 0) = wfrCenter0"
    by (simp add: first)
  have passes: "\<exists>s_j s_j'.
             cavity_loop P j 0 ?s0 = Inr s_j
           \<and> cavity_pass P j s_j = Inr s_j'
           \<and> cavity_loop P (Suc j) 0 ?s0 = Inr s_j'
           \<and> (\<forall>k<length (cavitywfrList s_j).
                  cavitywfrList s_j' ! k = cavitywfrList s_j ! k
                \<and> heap s_j' ! (cavitywfrList s_j ! k) = heap s_j ! (cavitywfrList s_j ! k))
           \<and> cavitywfrList s_j \<noteq> []
           \<and> list_all (\<lambda>a. a < length (heap s_j)) (cavitywfrList s_j)
           \<and> cavitywfrList s_j'
               = cavitywfrList s_j @ [length (heap s_j), length (heap s_j) + 1,
                                      length (heap s_j) + 2, length (heap s_j) + 3]
           \<and> heap s_j' = heap s_j @
                 [P propagateRight (heap s_j ! last (cavitywfrList s_j)),
                  P propagateDrift (P propagateRight (heap s_j ! last (cavitywfrList s_j))),
                  P propagateLeft (P propagateDrift
                     (P propagateRight (heap s_j ! last (cavitywfrList s_j)))),
                  P propagateDrift (P propagateLeft (P propagateDrift
                     (P propagateRight (heap s_j ! last (cavitywfrList s_j)))))]" for j
    using cavity_passes [of P j wfrCenter0] by (auto simp: cavity_inv_def)
  show ?thesis
    using run len' dist first hd passes
    by (auto simp: cell_cavity_def npass_def)
qed

text \<open>
  C8 (witness): wavefronts that count the propagations they went through. The 17 listed
  objects are distinct and hold 0 to 16; pass 3 finds the 13 objects 0 to 12 and leaves
  them as they were.
\<close>

theorem cavity_list_holds_17_untouched_wavefronts_witness:
  "(3::nat) < npass
   \<and> cell_cavity (\<lambda>bl x. x + 1) (0::nat) =
       Inr \<lparr>trace = map (\<lambda>(i, bl). Propag i bl) (concat (map pass_calls [0, 1, 2, 3])),
            heap = [0, 1, 2, 3, 4, 5, 6, 7, 8, 9, 10, 11, 12, 13, 14, 15, 16],
            cavitywfrList = [0, 1, 2, 3, 4, 5, 6, 7, 8, 9, 10, 11, 12, 13, 14, 15, 16]\<rparr>
   \<and> map_sum id (\<lambda>s. (heap s, cavitywfrList s))
         (cavity_loop (\<lambda>bl x. x + 1) 3 0 (cavity_init (0::nat)))
       = Inr ([0, 1, 2, 3, 4, 5, 6, 7, 8, 9, 10, 11, 12], [0, 1, 2, 3, 4, 5, 6, 7, 8, 9, 10, 11, 12])"
  using cavity_list_holds_17_untouched_wavefronts [of "\<lambda>bl x. x + 1" "0::nat"]
  by (simp add: cell_cavity_def npass_def cavity_init_def cavity_loop.simps cavity_pass_def
      deepcopy_def propag_def append_wfr_def emit_def pass_calls_def Let_def)

subsection \<open>C9: the bounds of the analytic gain\<close>



subsection \<open>C10: the division of the plotting loop\<close>

text \<open>
  C10. In laser\_amp\_test\_01, in exact arithmetic, the division that defines
  \<open>n_data[j]\<close> is safe for every \<open>j\<close> of \<open>0..9\<close>: \<open>t_data\<close> and \<open>z_data\<close> are filled, both
  reads are in range, the retarded time \<open>t_data[1] - z_data[j]/c\<close> is strictly positive,
  and so the denominator \<open>1 - exp(-gamma_ts*sigma_ts*eta_pulse*(t_data[1] -
  z_data[j]/c)/tau_pulse)\<close> is strictly positive, never zero.
\<close>

theorem n_data_division_is_safe:
  "j < num_points_amp \<Longrightarrow>
   \<exists>t_data z_data tr d.
       cell_data = Inr (t_data, z_data)
     \<and> retarded_time t_data z_data j = Inr tr \<and> 0 < tr
     \<and> denominator t_data z_data j = Inr d \<and> 0 < d \<and> d \<noteq> 0"
proof -
  assume j: "j < num_points_amp"
  let ?t = "map (\<lambda>j. time_0 + real j * dt_amp) [0..<num_points_amp]"
  let ?z = "map (\<lambda>j. real j * dz) [0..<num_points_amp]"
  let ?tr = "dt_amp - real j * dz / scipy_constants_c"
  have r: "retarded_time ?t ?z j = Inr ?tr" by (rule retarded_time_value [OF j])
  have p: "0 < ?tr" by (rule retarded_time_pos [OF j])
  let ?d = "1 - exp (- gamma_ts_amp * sigma_ts_amp * eta_pulse_amp * ?tr / tau_pulse_amp)"
  have d: "denominator ?t ?z j = Inr ?d"
    by (simp add: denominator_def r)
  have dp: "0 < ?d" by (rule denominator_pos [OF p])
  then have nz: "?d \<noteq> 0" by (rule less_imp_neq [THEN not_sym])
  have c: "cell_data = Inr (?t, ?z)" by (rule cell_data_closed_form)
  show ?thesis
    using c r p d dp nz by blast
qed

text \<open>
  C10 (witness): the last point, \<open>j = 9\<close>, where the retarded time is smallest.
\<close>

theorem n_data_division_is_safe_witness:
  "(9::nat) < num_points_amp
   \<and> (\<exists>t_data z_data tr d.
         cell_data = Inr (t_data, z_data)
       \<and> retarded_time t_data z_data 9 = Inr tr \<and> 0 < tr
       \<and> tr = 1 / 10 ^ 9 / 9 - 9 * (1 / 100 / 9) / 299792458
       \<and> denominator t_data z_data 9 = Inr d \<and> 0 < d \<and> d \<noteq> 0)"
proof -
  have nine: "(9::nat) < num_points_amp"
    by (simp add: num_points_amp_def)
  obtain t_data z_data tr d where w:
    "cell_data = Inr (t_data, z_data)" "retarded_time t_data z_data 9 = Inr tr" "0 < tr"
    "denominator t_data z_data 9 = Inr d" "0 < d" "d \<noteq> 0"
    using n_data_division_is_safe [OF nine] by blast
  have "tr = dt_amp - real 9 * dz / scipy_constants_c"
    using w(1,2) retarded_time_value [OF nine] by (simp add: cell_data_closed_form)
  then have "tr = 1 / 10 ^ 9 / 9 - 9 * (1 / 100 / 9) / 299792458"
    by (simp add: dt_amp_def dz_def time_f_def time_0_def tau_pulse_amp_def length_ts_amp_def
        num_points_amp_def scipy_constants_c_def)
  with nine w show ?thesis by blast
qed

end
